theory Spec2Isabelle
  imports Main "HOL-Library.Word"
begin

unbundle bit_operations_syntax

section \<open>Bytes and machine integers\<close>

type_synonym byte = "8 word"
type_synonym bytes = "byte list"
type_synonym uint32 = "32 word"
type_synonym uint64 = "64 word"

text \<open>
  \<open>binary.BigEndian\<close> on a \<open>uint64\<close>: the most significant byte first. The drand
  helper \<open>chain.RoundToBytes\<close> writes the round number with \<open>binary.Write(&buff,
  binary.BigEndian, r)\<close>, so it is this encoding.
\<close>

definition BigEndian_PutUint64 :: "uint64 \<Rightarrow> bytes" where
  "BigEndian_PutUint64 v = map (\<lambda>i. ucast (drop_bit (8 * i) v)) [7, 6, 5, 4, 3, 2, 1, 0]"

definition BigEndian_Uint64 :: "bytes \<Rightarrow> uint64" where
  "BigEndian_Uint64 b = foldl (\<lambda>acc x. push_bit 8 acc OR ucast x) 0 b"

definition RoundToBytes :: "uint64 \<Rightarrow> bytes" where
  "RoundToBytes r = BigEndian_PutUint64 r"

section \<open>SHA-256 (package \<open>crypto/sha256\<close>, FIPS 180-4)\<close>

definition rotr :: "nat \<Rightarrow> uint32 \<Rightarrow> uint32" where
  "rotr n x = drop_bit n x OR push_bit (32 - n) x"

definition ch :: "uint32 \<Rightarrow> uint32 \<Rightarrow> uint32 \<Rightarrow> uint32" where
  "ch x y z = (x AND y) XOR (NOT x AND z)"

definition maj :: "uint32 \<Rightarrow> uint32 \<Rightarrow> uint32 \<Rightarrow> uint32" where
  "maj x y z = (x AND y) XOR (x AND z) XOR (y AND z)"

definition bsig0 :: "uint32 \<Rightarrow> uint32" where
  "bsig0 x = rotr 2 x XOR rotr 13 x XOR rotr 22 x"

definition bsig1 :: "uint32 \<Rightarrow> uint32" where
  "bsig1 x = rotr 6 x XOR rotr 11 x XOR rotr 25 x"

definition ssig0 :: "uint32 \<Rightarrow> uint32" where
  "ssig0 x = rotr 7 x XOR rotr 18 x XOR drop_bit 3 x"

definition ssig1 :: "uint32 \<Rightarrow> uint32" where
  "ssig1 x = rotr 17 x XOR rotr 19 x XOR drop_bit 10 x"

text \<open>
  The round constants (FIPS 180-4, section 4.2.2), four to a row, and the initial hash
  value (section 5.3.3).
\<close>

definition sha256_K :: "uint32 list" where
  "sha256_K = concat
     [
      [0x428a2f98, 0x71374491, 0xb5c0fbcf, 0xe9b5dba5],
      [0x3956c25b, 0x59f111f1, 0x923f82a4, 0xab1c5ed5],
      [0xd807aa98, 0x12835b01, 0x243185be, 0x550c7dc3],
      [0x72be5d74, 0x80deb1fe, 0x9bdc06a7, 0xc19bf174],
      [0xe49b69c1, 0xefbe4786, 0x0fc19dc6, 0x240ca1cc],
      [0x2de92c6f, 0x4a7484aa, 0x5cb0a9dc, 0x76f988da],
      [0x983e5152, 0xa831c66d, 0xb00327c8, 0xbf597fc7],
      [0xc6e00bf3, 0xd5a79147, 0x06ca6351, 0x14292967],
      [0x27b70a85, 0x2e1b2138, 0x4d2c6dfc, 0x53380d13],
      [0x650a7354, 0x766a0abb, 0x81c2c92e, 0x92722c85],
      [0xa2bfe8a1, 0xa81a664b, 0xc24b8b70, 0xc76c51a3],
      [0xd192e819, 0xd6990624, 0xf40e3585, 0x106aa070],
      [0x19a4c116, 0x1e376c08, 0x2748774c, 0x34b0bcb5],
      [0x391c0cb3, 0x4ed8aa4a, 0x5b9cca4f, 0x682e6ff3],
      [0x748f82ee, 0x78a5636f, 0x84c87814, 0x8cc70208],
      [0x90befffa, 0xa4506ceb, 0xbef9a3f7, 0xc67178f2]]"

type_synonym digest_state =
  "uint32 \<times> uint32 \<times> uint32 \<times> uint32 \<times> uint32 \<times> uint32 \<times> uint32 \<times> uint32"

definition sha256_init :: digest_state where
  "sha256_init =
     (0x6a09e667, 0xbb67ae85, 0x3c6ef372, 0xa54ff53a,
      0x510e527f, 0x9b05688c, 0x1f83d9ab, 0x5be0cd19)"

fun chunks :: "nat \<Rightarrow> 'a list \<Rightarrow> 'a list list" where
  "chunks n xs = (if n = 0 \<or> xs = [] then [] else take n xs # chunks n (drop n xs))"

declare chunks.simps [simp del]

definition sha256_pad :: "bytes \<Rightarrow> bytes" where
  "sha256_pad m =
     m @ [0x80] @ replicate ((64 - (length m + 9) mod 64) mod 64) 0
       @ BigEndian_PutUint64 (word_of_nat (8 * length m))"

definition BigEndian_Uint32 :: "bytes \<Rightarrow> uint32" where
  "BigEndian_Uint32 b = foldl (\<lambda>acc x. push_bit 8 acc OR ucast x) 0 b"

definition BigEndian_PutUint32 :: "uint32 \<Rightarrow> bytes" where
  "BigEndian_PutUint32 v = map (\<lambda>i. ucast (drop_bit (8 * i) v)) [3, 2, 1, 0]"

fun sha256_extend :: "nat \<Rightarrow> uint32 list \<Rightarrow> uint32 list" where
  "sha256_extend 0 w = w"
| "sha256_extend (Suc n) w =
     (let t = length w in
      sha256_extend n
        (w @ [ssig1 (w ! (t - 2)) + w ! (t - 7) + ssig0 (w ! (t - 15)) + w ! (t - 16)]))"

definition sha256_schedule :: "bytes \<Rightarrow> uint32 list" where
  "sha256_schedule block = sha256_extend 48 (map BigEndian_Uint32 (chunks 4 block))"

fun sha256_round :: "digest_state \<Rightarrow> uint32 \<times> uint32 \<Rightarrow> digest_state" where
  "sha256_round (a, b, c, d, e, f, g, h) (k, w) =
     (let t1 = h + bsig1 e + ch e f g + k + w;
          t2 = bsig0 a + maj a b c
      in (t1 + t2, a, b, c, d + t1, e, f, g))"

fun sha256_add :: "digest_state \<Rightarrow> digest_state \<Rightarrow> digest_state" where
  "sha256_add (a, b, c, d, e, f, g, h) (a', b', c', d', e', f', g', h') =
     (a + a', b + b', c + c', d + d', e + e', f + f', g + g', h + h')"

definition sha256_block :: "digest_state \<Rightarrow> bytes \<Rightarrow> digest_state" where
  "sha256_block s block = sha256_add s (foldl sha256_round s (zip sha256_K (sha256_schedule block)))"

fun sha256_output :: "digest_state \<Rightarrow> bytes" where
  "sha256_output (a, b, c, d, e, f, g, h) = concat (map BigEndian_PutUint32 [a, b, c, d, e, f, g, h])"

definition sha256 :: "bytes \<Rightarrow> bytes" where
  "sha256 m = sha256_output (foldl sha256_block sha256_init (chunks 64 (sha256_pad m)))"


section \<open>Errors\<close>

text \<open>
  Go error values: the sentinels the program compares against, any other error a
  collaborator creates (named by its message), and \<open>fmt.Errorf(msg + ": %w", err)\<close>,
  which wraps \<open>err\<close>. \<open>errors.Is\<close> walks the chain of wrapped errors; a
  \<open>nil\<close> error matches nothing.
\<close>

datatype error =
    io_EOF
  | io_ErrUnexpectedEOF
  | ErrTooEarly
  | context_Canceled
  | Failure string
  | Errorf string error

fun error_chain_has :: "error \<Rightarrow> error \<Rightarrow> bool" where
  "error_chain_has (Errorf msg e) target = (Errorf msg e = target \<or> error_chain_has e target)"
| "error_chain_has e target = (e = target)"

definition errors_Is :: "error option \<Rightarrow> error \<Rightarrow> bool" where
  "errors_Is err target = (case err of None \<Rightarrow> False | Some e \<Rightarrow> error_chain_has e target)"

subsection \<open>The hash object\<close>

text \<open>
  The \<open>hash.Hash\<close> object returned by \<open>sha256.New()\<close>: it accumulates what is
  written (\<open>Write\<close> never returns an error) and \<open>Sum(b)\<close> appends
  the digest of the accumulated bytes to \<open>b\<close>.
\<close>

definition sha256_New :: "bytes" where
  "sha256_New = []"

definition hash_Write :: "bytes \<Rightarrow> bytes \<Rightarrow> (nat \<times> error option) \<times> bytes" where
  "hash_Write h p = ((length p, None), h @ p)"

definition hash_Sum :: "bytes \<Rightarrow> bytes \<Rightarrow> bytes" where
  "hash_Sum h b = b @ sha256 h"

section \<open>Data model\<close>

record MetaData =
  RoundNumber :: uint64
  ChainHash :: string

record CipherDEK =
  KyberPoint :: bytes
  CipherV :: bytes
  CipherW :: bytes

record CipherInfo =
  MetaData :: MetaData
  CipherDEK :: CipherDEK
  CipherData :: bytes

subsection \<open>Types of the imported packages\<close>

text \<open>
  \<open>ibe.Ciphertext\<close> (fields \<open>U\<close>, \<open>V\<close>, \<open>W\<close>), \<open>chain.Beacon\<close> and
  \<open>scheme.Scheme\<close>. Points of the groups G1 and G2 are kept abstract (type
  variables \<open>'g1\<close> and \<open>'g2\<close>).
\<close>

record 'g1 Ciphertext =
  ct_U :: 'g1
  ct_V :: bytes
  ct_W :: bytes

record Beacon =
  PreviousSig :: bytes
  Round :: uint64
  Signature :: bytes

record Scheme =
  ID :: string
  DecouplePrevSig :: bool

definition UnchainedSchemeID :: string where
  "UnchainedSchemeID = ''pedersen-bls-unchained''"

text \<open>A \<open>context.Context\<close>, seen through \<open>ctx.Err()\<close>: \<open>None\<close> while it is live.\<close>

datatype Context = Context (ctx_Err: "error option")

type_synonym Duration = int
type_synonym Time = int

section \<open>The world outside the program, and the log of calls into it\<close>

text \<open>
  Everything the program reaches only through a collaborator (the entropy source, the
  beacon network, the output destination, the state of a cipher) is one abstract world
  \<open>'w\<close>, threaded through every call that can read or change it. Beside it the model
  keeps a log: one entry per call of a collaborator, in program order, with the
  arguments the program passed. The log is how a statement speaks about what the
  program did (which frames it encoded, what it wrote, what it asked the verifier).
\<close>

datatype event =
    Call_rand_Read nat
  | Call_PublicKey
  | Call_EncryptionRoundAndID Duration
  | Call_IsReadyToDecrypt uint64
  | Call_ibe_Encrypt bytes bytes
  | Call_ReadFull nat
  | Call_Encrypt bytes bytes
  | Call_Encode CipherInfo bool
  | Call_Decode CipherInfo "error option"
  | Call_VerifyBeacon Scheme Beacon bool
  | Call_ibe_Decrypt bytes CipherDEK
  | Call_Decrypt bytes bytes
  | Call_Write bytes

record 'w state =
  world :: 'w
  calls :: "event list"

definition call :: "event \<Rightarrow> ('w \<Rightarrow> 'a \<times> 'w) \<Rightarrow> 'w state \<Rightarrow> 'a \<times> 'w state" where
  "call ev f s = (case f (world s) of (r, w') \<Rightarrow> (r, \<lparr>world = w', calls = calls s @ [ev]\<rparr>))"

definition note_call :: "event \<Rightarrow> 'w state \<Rightarrow> 'w state" where
  "note_call ev s = \<lparr>world = world s, calls = calls s @ [ev]\<rparr>"

subsection \<open>Collaborators\<close>

text \<open>
  The interface \<open>Network\<close>, with the methods in the order of the source. Every method
  that takes a context gets it; \<open>IsReadyToDecrypt\<close> returns the pair \<open>(id, ready)\<close>
  and has no error result.
\<close>

record ('w, 'g1) Network =
  Host :: "'w \<Rightarrow> string"
  Network_ChainHash :: "'w \<Rightarrow> string"
  PublicKey :: "Context \<Rightarrow> 'w \<Rightarrow> (error + 'g1) \<times> 'w"
  IsReadyToDecrypt :: "Context \<Rightarrow> uint64 \<Rightarrow> 'w \<Rightarrow> (bytes \<times> bool) \<times> 'w"
  Network_RoundNumber :: "Context \<Rightarrow> Time \<Rightarrow> 'w \<Rightarrow> (error + uint64) \<times> 'w"
  EncryptionRoundAndID :: "Context \<Rightarrow> Duration \<Rightarrow> 'w \<Rightarrow> (error + uint64 \<times> bytes) \<times> 'w"

text \<open>
  An \<open>io.Writer\<close> is its \<open>Write\<close> method; the interfaces \<open>Encoder\<close>,
  \<open>Decoder\<close>, \<open>Encrypter\<close> and \<open>Decrypter\<close> have one method each.
  A decoder reads from its input \<open>'i\<close> and returns the frame, the error and what is
  left of the input.
\<close>

type_synonym 'w Writer = "bytes \<Rightarrow> 'w \<Rightarrow> (nat \<times> error option) \<times> 'w"
type_synonym 'w Encoder = "'w Writer \<Rightarrow> CipherInfo \<Rightarrow> bool \<Rightarrow> 'w \<Rightarrow> error option \<times> 'w"
type_synonym 'i Decoder = "'i \<Rightarrow> bool \<Rightarrow> (CipherInfo \<times> error option) \<times> 'i"
type_synonym 'w Encrypter = "bytes \<Rightarrow> bytes \<Rightarrow> 'w \<Rightarrow> (error + bytes) \<times> 'w"
type_synonym 'w Decrypter = "bytes \<Rightarrow> bytes \<Rightarrow> 'w \<Rightarrow> (error + bytes) \<times> 'w"

text \<open>
  The imported packages the program calls: \<open>crypto/rand\<close> (the bytes it delivers for
  a buffer of the given size), \<open>ibe\<close> over the BLS12-381 suite, the binary encoding
  of points (\<open>MarshalBinary\<close>, \<open>UnmarshalBinary\<close> on \<open>bls.KyberG1\<close> and
  \<open>bls.KyberG2\<close>) and \<open>chain.NewVerifier(sch).VerifyBeacon\<close>.
\<close>

record ('w, 'g1, 'g2) library =
  rand_Read :: "nat \<Rightarrow> 'w \<Rightarrow> (error + bytes) \<times> 'w"
  ibe_Encrypt :: "'g1 \<Rightarrow> bytes \<Rightarrow> bytes \<Rightarrow> 'w \<Rightarrow> (error + 'g1 Ciphertext) \<times> 'w"
  ibe_Decrypt :: "'g1 \<Rightarrow> 'g2 \<Rightarrow> 'g1 Ciphertext \<Rightarrow> error + bytes"
  G1_MarshalBinary :: "'g1 \<Rightarrow> error + bytes"
  G1_UnmarshalBinary :: "bytes \<Rightarrow> error + 'g1"
  G2_UnmarshalBinary :: "bytes \<Rightarrow> error + 'g2"
  VerifyBeacon :: "Scheme \<Rightarrow> Beacon \<Rightarrow> 'g1 \<Rightarrow> error option"

text \<open>Go's builtin \<open>copy(dst, src)\<close>: the contents of \<open>dst\<close> afterwards.\<close>

definition go_copy :: "bytes \<Rightarrow> bytes \<Rightarrow> bytes" where
  "go_copy dst src = take (length dst) src @ drop (length src) dst"

subsection \<open>The plaintext reader and \<open>io.ReadFull\<close>\<close>

text \<open>
  An \<open>io.Reader\<close> as the program can observe it: the bytes it still delivers, and
  the error its \<open>Read\<close> returns once they are used up (\<open>io.EOF\<close> for a file or a
  buffer that ends normally).

  \<open>io.ReadFull(r, buf)\<close> reads until \<open>buf\<close> is full or \<open>Read\<close> fails. It
  returns no error when the buffer was filled; \<open>io.ErrUnexpectedEOF\<close> when the reader
  ended with \<open>io.EOF\<close> (compared with \<open>==\<close>) after some but not all bytes; and
  otherwise the reader's own error, with the bytes read so far.
\<close>

record Reader =
  pending :: bytes
  final :: error

definition bytes_Reader :: "bytes \<Rightarrow> Reader" where
  "bytes_Reader p = \<lparr>pending = p, final = io_EOF\<rparr>"

definition ReadFull :: "Reader \<Rightarrow> nat \<Rightarrow> (bytes \<times> error option) \<times> Reader" where
  "ReadFull r m =
     (if m \<le> length (pending r)
      then ((take m (pending r), None), r\<lparr>pending := drop m (pending r)\<rparr>)
      else if pending r \<noteq> [] \<and> final r = io_EOF
      then ((pending r, Some io_ErrUnexpectedEOF), r\<lparr>pending := []\<rparr>)
      else ((pending r, Some (final r)), r\<lparr>pending := []\<rparr>))"

section \<open>The program\<close>

subsection \<open>\<open>CalculateEncryptionID\<close>\<close>

definition CalculateEncryptionID :: "uint64 \<Rightarrow> error + bytes" where
  "CalculateEncryptionID roundNumber =
     (let h = sha256_New in
      case hash_Write h (RoundToBytes roundNumber) of
        ((n, Some err), h') \<Rightarrow> Inl (Errorf ''sha256 write'' err)
      | ((n, None), h') \<Rightarrow> Inr (hash_Sum h' []))"

subsection \<open>\<open>encrypt\<close>\<close>

definition fileKeySize :: nat where
  "fileKeySize = 32"

definition chunkSize :: nat where
  "chunkSize = 1024 * 64"

text \<open>
  The chunk loop of \<open>encrypt\<close> (\<open>for { ... }\<close>), on the loop variable \<open>done\<close>, the
  input and \<open>cipherInfo\<close>, whose field \<open>CipherData\<close> each round overwrites.
\<close>

function encrypt_loop ::
  "'w Writer \<Rightarrow> 'w Encoder \<Rightarrow> 'w Encrypter \<Rightarrow> bytes \<Rightarrow> CipherInfo \<Rightarrow> bool \<Rightarrow> bool \<Rightarrow> Reader \<Rightarrow> 'w state
    \<Rightarrow> error option \<times> Reader \<times> 'w state" where
  "encrypt_loop out encoder encrypter dek cipherInfo armor done inp s =
     (if done then (None, inp, s)
      else
        (case ReadFull inp chunkSize of ((data, err), inp') \<Rightarrow>
          (let s1 = note_call (Call_ReadFull (length data)) s in
           if errors_Is err io_EOF then (None, inp', s1)
           else if \<not> errors_Is err io_ErrUnexpectedEOF \<and> err \<noteq> None
           then (map_option (Errorf ''decoding input data'') err, inp', s1)
           else
             (let done' = (if errors_Is err io_ErrUnexpectedEOF then True else done) in
              (case call (Call_Encrypt dek data) (encrypter dek data) s1 of
                 (Inl e, s2) \<Rightarrow> (Some (Errorf ''encrypt data'' e), inp', s2)
               | (Inr cipherData, s2) \<Rightarrow>
                   (let cipherInfo' = cipherInfo\<lparr>CipherData := cipherData\<rparr> in
                    (case call (Call_Encode cipherInfo' armor) (encoder out cipherInfo' armor) s2 of
                       (Some e, s3) \<Rightarrow> (Some (Errorf ''encode'' e), inp', s3)
                     | (None, s3) \<Rightarrow>
                         encrypt_loop out encoder encrypter dek cipherInfo' armor done' inp' s3)))))))"
  by pat_completeness auto
termination
  by (relation "measure (\<lambda>(out, encoder, encrypter, dek, cipherInfo, armor, done, inp, s).
          if done then 0 else Suc (length (pending inp)))")
     (auto simp: ReadFull_def chunkSize_def errors_Is_def split: if_splits)

declare encrypt_loop.simps [simp del]

text \<open>
  \<open>encrypt\<close>: the data encryption key, the chain's public key, the key wrapped for
  the round's identity, then the chunk loop. \<open>rand.Read(dek)\<close> overwrites the
  buffer \<open>make([]byte, fileKeySize)\<close> with what the source delivers.
\<close>

definition encrypt ::
  "('w, 'g1, 'g2) library \<Rightarrow> Context \<Rightarrow> 'w Writer \<Rightarrow> Reader \<Rightarrow> 'w Encoder \<Rightarrow> ('w, 'g1) Network
    \<Rightarrow> 'w Encrypter \<Rightarrow> uint64 \<Rightarrow> bytes \<Rightarrow> bool \<Rightarrow> 'w state \<Rightarrow> error option \<times> Reader \<times> 'w state" where
  "encrypt L ctx out inp encoder network encrypter roundNumber ident armor s =
     (case call (Call_rand_Read fileKeySize) (rand_Read L fileKeySize) s of
        (Inl e, s1) \<Rightarrow> (Some (Errorf ''random key'' e), inp, s1)
      | (Inr delivered, s1) \<Rightarrow>
     (let dek = go_copy (replicate fileKeySize 0) delivered in
     (case call Call_PublicKey (PublicKey network ctx) s1 of
        (Inl e, s2) \<Rightarrow> (Some (Errorf ''public key'' e), inp, s2)
      | (Inr publicKey, s2) \<Rightarrow>
     (case call (Call_ibe_Encrypt ident dek) (ibe_Encrypt L publicKey ident dek) s2 of
        (Inl e, s3) \<Rightarrow> (Some (Errorf ''encrypt dek'' e), inp, s3)
      | (Inr cipherText, s3) \<Rightarrow>
     (case G1_MarshalBinary L (ct_U cipherText) of
        Inl e \<Rightarrow> (Some (Errorf ''marshal kyber point'' e), inp, s3)
      | Inr kyberPoint \<Rightarrow>
     (let cipherInfo =
        \<lparr>MetaData = \<lparr>RoundNumber = roundNumber, ChainHash = Network_ChainHash network (world s3)\<rparr>,
         CipherDEK = \<lparr>KyberPoint = kyberPoint, CipherV = ct_V cipherText, CipherW = ct_W cipherText\<rparr>,
         CipherData = []\<rparr>
      in encrypt_loop out encoder encrypter dek cipherInfo armor False inp s3))))))"

definition EncryptWithRound ::
  "('w, 'g1, 'g2) library \<Rightarrow> Context \<Rightarrow> 'w Writer \<Rightarrow> Reader \<Rightarrow> 'w Encoder \<Rightarrow> ('w, 'g1) Network
    \<Rightarrow> 'w Encrypter \<Rightarrow> uint64 \<Rightarrow> bool \<Rightarrow> 'w state \<Rightarrow> error option \<times> Reader \<times> 'w state" where
  "EncryptWithRound L ctx out inp encoder network encrypter roundNumber armor s =
     (case CalculateEncryptionID roundNumber of
        Inl err \<Rightarrow> (Some (Errorf ''round by number'' err), inp, s)
      | Inr ident \<Rightarrow> encrypt L ctx out inp encoder network encrypter roundNumber ident armor s)"

definition EncryptWithDuration ::
  "('w, 'g1, 'g2) library \<Rightarrow> Context \<Rightarrow> 'w Writer \<Rightarrow> Reader \<Rightarrow> 'w Encoder \<Rightarrow> ('w, 'g1) Network
    \<Rightarrow> 'w Encrypter \<Rightarrow> Duration \<Rightarrow> bool \<Rightarrow> 'w state \<Rightarrow> error option \<times> Reader \<times> 'w state" where
  "EncryptWithDuration L ctx out inp encoder network encrypter duration armor s =
     (case call (Call_EncryptionRoundAndID duration) (EncryptionRoundAndID network ctx duration) s of
        (Inl err, s1) \<Rightarrow> (Some (Errorf ''round by duration'' err), inp, s1)
      | (Inr (roundNumber, ident), s1) \<Rightarrow>
          encrypt L ctx out inp encoder network encrypter roundNumber ident armor s1)"

subsection \<open>\<open>decryptDEK\<close> and \<open>Decrypt\<close>\<close>

definition decryptDEK ::
  "('w, 'g1, 'g2) library \<Rightarrow> Context \<Rightarrow> CipherDEK \<Rightarrow> ('w, 'g1) Network \<Rightarrow> uint64 \<Rightarrow> 'w state
    \<Rightarrow> (error + bytes) \<times> 'w state" where
  "decryptDEK L ctx cipherDEK network roundNumber s =
     (case call (Call_IsReadyToDecrypt roundNumber) (IsReadyToDecrypt network ctx roundNumber) s of
        ((ident, ready), s1) \<Rightarrow>
     (if \<not> ready then (Inl ErrTooEarly, s1)
      else
     (case G2_UnmarshalBinary L ident of
        Inl err \<Rightarrow> (Inl (Errorf ''unmarshal kyber G2'' err), s1)
      | Inr dekSignature \<Rightarrow>
     (case G1_UnmarshalBinary L (KyberPoint cipherDEK) of
        Inl err \<Rightarrow> (Inl (Errorf ''unmarshal kyber G1'' err), s1)
      | Inr dekKyberPoint \<Rightarrow>
     (case call Call_PublicKey (PublicKey network ctx) s1 of
        (Inl err, s2) \<Rightarrow> (Inl (Errorf ''public key'' err), s2)
      | (Inr publicKey, s2) \<Rightarrow>
     (let b = \<lparr>PreviousSig = [], Round = roundNumber, Signature = ident\<rparr>;
          sch = \<lparr>ID = UnchainedSchemeID, DecouplePrevSig = True\<rparr>;
          verdict = VerifyBeacon L sch b publicKey;
          s3 = note_call (Call_VerifyBeacon sch b (verdict = None)) s2
      in
     (case verdict of
        Some err \<Rightarrow> (Inl (Errorf ''verify beacon'' err), s3)
      | None \<Rightarrow>
     (let dek = \<lparr>ct_U = dekKyberPoint, ct_V = CipherV cipherDEK, ct_W = CipherW cipherDEK\<rparr>;
          s4 = note_call (Call_ibe_Decrypt ident cipherDEK) s3
      in
     (case ibe_Decrypt L publicKey dekSignature dek of
        Inl err \<Rightarrow> (Inl (Errorf ''decrypt dek'' err), s4)
      | Inr plainDEK \<Rightarrow> (Inr plainDEK, s4))))))))))"

text \<open>
  The loop of \<open>Decrypt\<close> ends only when the decoder reports an error, and a decoder is
  free never to do so; the model counts the rounds of the loop. \<open>Unfinished\<close> is
  the loop still running after the given number of rounds, \<open>Returned err\<close> is
  \<open>return err\<close>. The input left and the state reached are given in both cases.
\<close>

datatype outcome = Unfinished | Returned "error option"

fun Decrypt_loop ::
  "nat \<Rightarrow> ('w, 'g1, 'g2) library \<Rightarrow> Context \<Rightarrow> 'w Writer \<Rightarrow> 'i Decoder \<Rightarrow> ('w, 'g1) Network
    \<Rightarrow> 'w Decrypter \<Rightarrow> bool \<Rightarrow> bool \<Rightarrow> 'i \<Rightarrow> 'w state \<Rightarrow> outcome \<times> 'i \<times> 'w state" where
  "Decrypt_loop 0 L ctx out decoder network decrypter armor done inp s = (Unfinished, inp, s)"
| "Decrypt_loop (Suc n) L ctx out decoder network decrypter armor done inp s =
     (if done then (Returned None, inp, s)
      else
        (case decoder inp armor of ((info, err), inp') \<Rightarrow>
          (let s1 = note_call (Call_Decode info err) s in
           if errors_Is err io_EOF then (Returned None, inp', s1)
           else if \<not> errors_Is err io_ErrUnexpectedEOF \<and> err \<noteq> None
           then (Returned (map_option (Errorf ''decoding input data'') err), inp', s1)
           else
             (let done' = (if errors_Is err io_ErrUnexpectedEOF then True else done) in
              (case decryptDEK L ctx (CipherDEK info) network (RoundNumber (MetaData info)) s1 of
                 (Inl e, s2) \<Rightarrow> (Returned (Some (Errorf ''decrypt dek'' e)), inp', s2)
               | (Inr plainDEK, s2) \<Rightarrow>
              (case call (Call_Decrypt plainDEK (CipherData info)) (decrypter plainDEK (CipherData info)) s2 of
                 (Inl e, s3) \<Rightarrow> (Returned (Some (Errorf ''decrypt data'' e)), inp', s3)
               | (Inr plainData, s3) \<Rightarrow>
              (case call (Call_Write plainData) (out plainData) s3 of
                 ((n', Some e), s4) \<Rightarrow> (Returned (Some (Errorf ''write data'' e)), inp', s4)
               | ((n', None), s4) \<Rightarrow>
                   Decrypt_loop n L ctx out decoder network decrypter armor done' inp' s4)))))))"

definition Decrypt ::
  "nat \<Rightarrow> ('w, 'g1, 'g2) library \<Rightarrow> Context \<Rightarrow> 'w Writer \<Rightarrow> 'i \<Rightarrow> 'i Decoder \<Rightarrow> ('w, 'g1) Network
    \<Rightarrow> 'w Decrypter \<Rightarrow> bool \<Rightarrow> 'w state \<Rightarrow> outcome \<times> 'i \<times> 'w state" where
  "Decrypt n L ctx out inp decoder network decrypter armor s =
     Decrypt_loop n L ctx out decoder network decrypter armor False inp s"

section \<open>Reading the log\<close>

text \<open>The calls a run added to the log, given the states before and after it.\<close>

definition new_calls :: "'w state \<Rightarrow> 'w state \<Rightarrow> event list" where
  "new_calls s s' = drop (length (calls s)) (calls s')"

text \<open>The frames handed to the encoder, in order.\<close>

fun encoded_frames :: "event list \<Rightarrow> CipherInfo list" where
  "encoded_frames [] = []"
| "encoded_frames (Call_Encode cipherInfo armor # es) = cipherInfo # encoded_frames es"
| "encoded_frames (e # es) = encoded_frames es"

text \<open>The plaintext chunks handed to the symmetric cipher, in order.\<close>

fun encrypted_chunks :: "event list \<Rightarrow> bytes list" where
  "encrypted_chunks [] = []"
| "encrypted_chunks (Call_Encrypt key plainData # es) = plainData # encrypted_chunks es"
| "encrypted_chunks (e # es) = encrypted_chunks es"

text \<open>The bytes handed to \<open>out.Write\<close>, concatenated in order.\<close>

fun written_bytes :: "event list \<Rightarrow> bytes" where
  "written_bytes [] = []"
| "written_bytes (Call_Write p # es) = p @ written_bytes es"
| "written_bytes (e # es) = written_bytes es"

text \<open>The schemes and beacons handed to the beacon verifier, in order.\<close>

fun verifier_calls :: "event list \<Rightarrow> (Scheme \<times> Beacon) list" where
  "verifier_calls [] = []"
| "verifier_calls (Call_VerifyBeacon sch b ok # es) = (sch, b) # verifier_calls es"
| "verifier_calls (e # es) = verifier_calls es"

section \<open>Test doubles\<close>

text \<open>
  A small concrete world to run the program in: the latest round the beacon has signed,
  the frames the encoder double has written, and the bytes the plaintext sink holds.
  Points are stood in for by byte strings. The doubles do the least that keeps each
  collaborator's contract: the cipher double prefixes the key as a tag and checks it,
  the beacon double signs round \<open>r\<close> as \<open>RoundToBytes r\<close>, the network double
  answers a cancelled context the only way its result types allow.
\<close>

record test_world =
  latest_round :: uint64
  stream :: "CipherInfo list"
  sink :: bytes

definition test_library :: "(test_world, bytes, bytes) library" where
  "test_library =
     \<lparr>rand_Read = (\<lambda>n w. (Inr (replicate n 7), w)),
      ibe_Encrypt = (\<lambda>pk ident dek w. (Inr \<lparr>ct_U = pk, ct_V = dek, ct_W = ident\<rparr>, w)),
      ibe_Decrypt = (\<lambda>pk sg ct. if ct_U ct = pk then Inr (ct_V ct) else Inl (Failure ''invalid proof'')),
      G1_MarshalBinary = Inr,
      G1_UnmarshalBinary = Inr,
      G2_UnmarshalBinary = Inr,
      VerifyBeacon = (\<lambda>sch b pk.
        if Signature b = RoundToBytes (Round b) then None else Some (Failure ''invalid signature''))\<rparr>"

definition test_network :: "(test_world, bytes) Network" where
  "test_network =
     \<lparr>Host = (\<lambda>w. ''test.invalid''),
      Network_ChainHash = (\<lambda>w. ''7e57''),
      PublicKey = (\<lambda>ctx w. case ctx_Err ctx of Some e \<Rightarrow> (Inl e, w) | None \<Rightarrow> (Inr [1, 2, 3], w)),
      IsReadyToDecrypt = (\<lambda>ctx r w.
        if ctx_Err ctx = None \<and> r \<le> latest_round w then ((RoundToBytes r, True), w) else (([], False), w)),
      Network_RoundNumber = (\<lambda>ctx t w. case ctx_Err ctx of Some e \<Rightarrow> (Inl e, w) | None \<Rightarrow> (Inr (word_of_int t), w)),
      EncryptionRoundAndID = (\<lambda>ctx d w.
        case ctx_Err ctx of
          Some e \<Rightarrow> (Inl e, w)
        | None \<Rightarrow> (Inr (latest_round w + word_of_int d, sha256 (RoundToBytes (latest_round w + word_of_int d))), w))\<rparr>"

definition test_writer :: "test_world Writer" where
  "test_writer p w = ((length p, None), w\<lparr>sink := sink w @ p\<rparr>)"

definition test_encoder :: "test_world Encoder" where
  "test_encoder out cipherInfo armor w = (None, w\<lparr>stream := stream w @ [cipherInfo]\<rparr>)"

definition empty_CipherInfo :: CipherInfo where
  "empty_CipherInfo =
     \<lparr>MetaData = \<lparr>RoundNumber = 0, ChainHash = []\<rparr>,
      CipherDEK = \<lparr>KyberPoint = [], CipherV = [], CipherW = []\<rparr>,
      CipherData = []\<rparr>"

fun test_decoder :: "CipherInfo list Decoder" where
  "test_decoder [] armor = ((empty_CipherInfo, Some io_EOF), [])"
| "test_decoder (f # fs) armor = ((f, None), fs)"

definition test_encrypter :: "test_world Encrypter" where
  "test_encrypter key plainData w = (Inr (key @ plainData), w)"

definition test_decrypter :: "test_world Decrypter" where
  "test_decrypter key cipherData w =
     (if take (length key) cipherData = key then (Inr (drop (length key) cipherData), w)
      else (Inl (Failure ''message authentication failed''), w))"

definition test_state :: "test_world state" where
  "test_state = \<lparr>world = \<lparr>latest_round = 10, stream = [], sink = []\<rparr>, calls = []\<rparr>"

definition background :: Context where
  "background = Context None"

definition cancelled :: Context where
  "cancelled = Context (Some context_Canceled)"

definition frame_for_round_11 :: CipherInfo where
  "frame_for_round_11 =
     \<lparr>MetaData = \<lparr>RoundNumber = 11, ChainHash = ''7e57''\<rparr>,
      CipherDEK = \<lparr>KyberPoint = [1, 2, 3], CipherV = replicate 32 7, CipherW = []\<rparr>,
      CipherData = replicate 32 7 @ [104, 101, 108, 108, 111]\<rparr>"

section \<open>Notions the statements use\<close>

text \<open>
  Frame \<open>f\<close> carries chunk \<open>c\<close>: its \<open>CipherData\<close> is what the symmetric cipher
  returned, in some state of the world, for the key and the chunk.
\<close>

definition sealed_by :: "'w Encrypter \<Rightarrow> bytes \<Rightarrow> CipherInfo \<Rightarrow> bytes \<Rightarrow> bool" where
  "sealed_by encrypter dek f c = (\<exists>w w'. encrypter dek c w = (Inr (CipherData f), w'))"

text \<open>
  The calls the chunk loop of \<open>encrypt\<close> can make: a read of at most one chunk, the
  cipher under the session's key, the encoder on a frame with the session's metadata
  and wrapped key.
\<close>

fun loop_event :: "bytes \<Rightarrow> CipherInfo \<Rightarrow> bool \<Rightarrow> event \<Rightarrow> bool" where
  "loop_event dek ci armor (Call_ReadFull n) = (n \<le> chunkSize)"
| "loop_event dek ci armor (Call_Encrypt key plainData) = (key = dek \<and> length plainData \<le> chunkSize)"
| "loop_event dek ci armor (Call_Encode f a) =
     (a = armor \<and> MetaData f = MetaData ci \<and> CipherDEK f = CipherDEK ci)"
| "loop_event dek ci armor e = False"

fun is_rand_Read :: "event \<Rightarrow> bool" where
  "is_rand_Read (Call_rand_Read n) = True"
| "is_rand_Read e = False"

fun is_ibe_Encrypt :: "event \<Rightarrow> bool" where
  "is_ibe_Encrypt (Call_ibe_Encrypt ident dek) = True"
| "is_ibe_Encrypt e = False"

fun is_ibe_Decrypt :: "event \<Rightarrow> bool" where
  "is_ibe_Decrypt (Call_ibe_Decrypt sg cipherDEK) = True"
| "is_ibe_Decrypt e = False"

fun is_Decode :: "event \<Rightarrow> bool" where
  "is_Decode (Call_Decode info err) = True"
| "is_Decode e = False"

definition hello :: bytes where
  "hello = [104, 101, 108, 108, 111]"


text \<open>The scheme \<open>decryptDEK\<close> builds its verifier with.\<close>

definition fixed_scheme :: Scheme where
  "fixed_scheme = \<lparr>ID = UnchainedSchemeID, DecouplePrevSig = True\<rparr>"

text \<open>
  Reading a log of \<open>Decrypt\<close> from left to right. The state is the frame decoded
  last and whether, since it was decoded, the verifier's latest answer accepted a beacon
  for that frame's round number. A log is \<open>gated\<close> when every call of
  \<open>ibe.Decrypt\<close> in it comes in a state where that flag is set.
\<close>

type_synonym gate = "CipherInfo option \<times> bool"

fun gate_after :: "gate \<Rightarrow> event \<Rightarrow> gate" where
  "gate_after (frame, verified) (Call_Decode info err) = (Some info, False)"
| "gate_after (frame, verified) (Call_VerifyBeacon sch b ok) =
     (frame, ok \<and> (case frame of None \<Rightarrow> False | Some info \<Rightarrow> Round b = RoundNumber (MetaData info)))"
| "gate_after (frame, verified) e = (frame, verified)"

fun gated :: "gate \<Rightarrow> event list \<Rightarrow> bool" where
  "gated g [] = True"
| "gated g (e # es) = ((if is_ibe_Decrypt e then snd g else True) \<and> gated (gate_after g e) es)"

text \<open>
  The codec's contract on one input: successive calls of the decoder return exactly the
  frames \<open>fs\<close>, each with no error, and then an error that matches \<open>io.EOF\<close>.
\<close>

fun decodes_to :: "'i Decoder \<Rightarrow> bool \<Rightarrow> 'i \<Rightarrow> CipherInfo list \<Rightarrow> bool" where
  "decodes_to decoder armor inp [] = errors_Is (snd (fst (decoder inp armor))) io_EOF"
| "decodes_to decoder armor inp (f # fs) =
     (case decoder inp armor of
        ((info, err), inp') \<Rightarrow> info = f \<and> err = None \<and> decodes_to decoder armor inp' fs)"

text \<open>A frame for round 5 of the test chain whose final byte arrives with the
  unexpected-end marker, and a stream made of it.\<close>

definition frame_for_round_5 :: CipherInfo where
  "frame_for_round_5 =
     \<lparr>MetaData = \<lparr>RoundNumber = 5, ChainHash = ''7e57''\<rparr>,
      CipherDEK = \<lparr>KyberPoint = [1, 2, 3], CipherV = replicate 32 7, CipherW = []\<rparr>,
      CipherData = replicate 32 7 @ hello\<rparr>"

fun last_frame_decoder :: "CipherInfo list Decoder" where
  "last_frame_decoder [] armor = ((empty_CipherInfo, Some io_EOF), [])"
| "last_frame_decoder [f] armor = ((f, Some io_ErrUnexpectedEOF), [])"
| "last_frame_decoder (f # fs) armor = ((f, None), fs)"

text \<open>A network double that is always ready and hands out the signature of the next
  round instead of the one asked for.\<close>

definition wrong_round_network :: "(test_world, bytes) Network" where
  "wrong_round_network =
     test_network\<lparr>IsReadyToDecrypt := (\<lambda>ctx r w. ((RoundToBytes (r + 1), True), w))\<rparr>"

section \<open>The round identity\<close>

lemma length_RoundToBytes: "length (RoundToBytes r) = 8"
  by (simp add: RoundToBytes_def BigEndian_PutUint64_def)

lemma be_step:
  "push_bit 8 (drop_bit (m + 8) r) OR ucast (ucast (drop_bit m r) :: byte) = drop_bit m (r :: uint64)"
  apply (rule bit_word_eqI)
  apply (simp add: bit_simps)
  apply (metis add.commute add.left_commute le_add_diff_inverse not_less)
  done

lemma be_top: "ucast (ucast (drop_bit 56 r) :: byte) = drop_bit 56 (r :: uint64)"
  apply (rule bit_word_eqI)
  apply (simp add: bit_simps)
  using bit_imp_le_length apply fastforce
  done

lemma BigEndian_Uint64_PutUint64: "BigEndian_Uint64 (BigEndian_PutUint64 r) = r"
  unfolding BigEndian_Uint64_def BigEndian_PutUint64_def
  using be_step [of 48 r] be_step [of 40 r] be_step [of 32 r] be_step [of 24 r]
    be_step [of 16 r] be_step [of 8 r] be_step [of 0 r]
  by (simp add: be_top)

lemma length_sha256_output: "length (sha256_output st) = 32"
  by (induction st rule: sha256_output.induct) (simp add: BigEndian_PutUint32_def)

lemma length_sha256: "length (sha256 m) = 32"
  by (simp add: sha256_def length_sha256_output)

lemma RoundToBytes_1: "RoundToBytes 1 = [0, 0, 0, 0, 0, 0, 0, 1]"
  by (simp add: RoundToBytes_def BigEndian_PutUint64_def)

text \<open>
  The digest of the encoding of round 1, as \<open>sha256sum\<close> prints it
  (cd2662154e6d76b2...9083d00a50): the definition of \<open>sha256\<close> above, run on the
  eight bytes 00 00 00 00 00 00 00 01.
\<close>

lemma sha256_of_round_1:
  "sha256 [0, 0, 0, 0, 0, 0, 0, 1] =
     [0xcd, 0x26, 0x62, 0x15, 0x4e, 0x6d, 0x76, 0xb2, 0xb2, 0xb9, 0x2e, 0x70, 0xc0, 0xca, 0xc3, 0xcc,
      0xf5, 0x34, 0xf9, 0xb7, 0x4e, 0xb5, 0xb8, 0x98, 0x19, 0xec, 0x50, 0x90, 0x83, 0xd0, 0x0a, 0x50]"
  by code_simp

text \<open>
  C2. For every round number \<open>R\<close>, \<open>CalculateEncryptionID R\<close> succeeds and returns the
  SHA-256 digest of \<open>RoundToBytes R\<close>; that encoding has 8 bytes and reads back as
  \<open>R\<close> most significant byte first; the digest has 32 bytes; for round 1 the input of
  the hash is 00 00 00 00 00 00 00 01. The result is a function of \<open>R\<close> alone.
\<close>

theorem CalculateEncryptionID_is_sha256_of_big_endian_round:
  "CalculateEncryptionID R = Inr (sha256 (RoundToBytes R))
   \<and> length (RoundToBytes R) = 8
   \<and> BigEndian_Uint64 (RoundToBytes R) = R
   \<and> length (sha256 (RoundToBytes R)) = 32
   \<and> CalculateEncryptionID 1 = Inr (sha256 [0, 0, 0, 0, 0, 0, 0, 1])"
  by (simp add: CalculateEncryptionID_def sha256_New_def hash_Write_def hash_Sum_def
        length_RoundToBytes length_sha256 RoundToBytes_1)
     (simp add: RoundToBytes_def BigEndian_Uint64_PutUint64)

section \<open>Decrypting too early\<close>

text \<open>
  C3. In any round of the loop of \<open>Decrypt\<close>: when the decoder hands over a frame that
  is processed (no error, or the unexpected-end marker) and the network answers
  \<open>ready = false\<close> for the frame's round number, \<open>Decrypt\<close> returns an error that
  \<open>errors.Is\<close> matches with \<open>ErrTooEarly\<close>; the input is left where that one
  \<open>Decode\<close> left it, and the only calls made in that round are this \<open>Decode\<close> and
  \<open>IsReadyToDecrypt\<close>. When the frame is the first of the stream, the whole run of
  \<open>Decrypt\<close> has called \<open>Write\<close> with no byte.
\<close>

theorem Decrypt_too_early:
  assumes "decoder inp armor = ((info, err), inp')"
    and "err = None \<or> errors_Is err io_ErrUnexpectedEOF"
    and "\<not> errors_Is err io_EOF"
    and "IsReadyToDecrypt network ctx (RoundNumber (MetaData info)) (world s) = ((ident, False), w')"
  shows "Decrypt_loop (Suc n) L ctx out decoder network decrypter armor False inp s =
           (Returned (Some (Errorf ''decrypt dek'' ErrTooEarly)), inp',
            \<lparr>world = w',
             calls = calls s @ [Call_Decode info err, Call_IsReadyToDecrypt (RoundNumber (MetaData info))]\<rparr>)
         \<and> errors_Is (Some (Errorf ''decrypt dek'' ErrTooEarly)) ErrTooEarly
         \<and> (\<exists>s'. Decrypt (Suc n) L ctx out inp decoder network decrypter armor s =
                    (Returned (Some (Errorf ''decrypt dek'' ErrTooEarly)), inp', s')
                \<and> written_bytes (new_calls s s') = [])"
  using assms
  by (auto simp: Decrypt_def decryptDEK_def call_def note_call_def errors_Is_def new_calls_def Let_def)

theorem Decrypt_too_early_witness:
  "Decrypt_loop (Suc 0) test_library background test_writer test_decoder test_network test_decrypter
       False False [frame_for_round_11] test_state =
     (Returned (Some (Errorf ''decrypt dek'' ErrTooEarly)), [],
      \<lparr>world = world test_state,
       calls = [Call_Decode frame_for_round_11 None, Call_IsReadyToDecrypt 11]\<rparr>)
   \<and> test_decoder [frame_for_round_11] False = ((frame_for_round_11, None), [])
   \<and> IsReadyToDecrypt test_network background 11 (world test_state) = (([], False), world test_state)"
  using Decrypt_too_early [of test_decoder "[frame_for_round_11]" False frame_for_round_11 None "[]"
      test_network background test_state "[]" "world test_state" 0 test_library test_writer test_decrypter]
  by (simp add: test_network_def test_state_def background_def frame_for_round_11_def errors_Is_def)

section \<open>Chunks\<close>

lemma chunks_Nil [simp]: "chunks n [] = []"
  by (simp add: chunks.simps)

lemma chunks_Cons: "0 < n \<Longrightarrow> xs \<noteq> [] \<Longrightarrow> chunks n xs = take n xs # chunks n (drop n xs)"
  by (subst chunks.simps) simp

lemma chunks_short: "0 < n \<Longrightarrow> xs \<noteq> [] \<Longrightarrow> length xs \<le> n \<Longrightarrow> chunks n xs = [xs]"
  by (simp add: chunks_Cons)

lemma concat_chunks: "0 < n \<Longrightarrow> concat (chunks n xs) = xs"
proof (induction n xs rule: chunks.induct)
  case (1 n xs)
  show ?case
  proof (cases "xs = []")
    case True
    then show ?thesis by simp
  next
    case False
    with 1 show ?thesis by (simp add: chunks_Cons)
  qed
qed

lemma length_chunks: "0 < n \<Longrightarrow> length (chunks n xs) = (length xs + n - 1) div n"
proof (induction n xs rule: chunks.induct)
  case (1 n xs)
  show ?case
  proof (cases "xs = []")
    case True
    with 1(2) show ?thesis by simp
  next
    case False
    have ih: "length (chunks n (drop n xs)) = (length (drop n xs) + n - 1) div n"
      using 1 False by simp
    show ?thesis
    proof (cases "length xs \<le> n")
      case True
      with False 1(2) have "n * 1 \<le> length xs + n - 1" "length xs + n - 1 < n * Suc 1"
        by (cases xs; simp)+
      then have "(length xs + n - 1) div n = 1"
        by (rule div_nat_eqI)
      with True False 1(2) show ?thesis by (simp add: chunks_short)
    next
      case False
      then have "length xs + n - 1 = (length xs - n + n - 1) + n" by simp
      then have "(length xs + n - 1) div n = (length xs - n + n - 1) div n + 1"
        using 1(2) by (simp only: div_add_self2)
      with ih 1(2) \<open>xs \<noteq> []\<close> show ?thesis by (simp add: chunks_Cons)
    qed
  qed
qed

lemma chunks_lengths:
  "0 < n \<Longrightarrow> c \<in> set (chunks n xs) \<Longrightarrow> 1 \<le> length c \<and> length c \<le> n"
proof (induction n xs rule: chunks.induct)
  case (1 n xs)
  show ?case
  proof (cases "xs = []")
    case True
    with 1 show ?thesis by simp
  next
    case False
    with 1 show ?thesis by (auto simp: chunks_Cons Suc_le_eq)
  qed
qed

lemma chunks_butlast_full:
  "0 < n \<Longrightarrow> c \<in> set (butlast (chunks n xs)) \<Longrightarrow> length c = n"
proof (induction n xs rule: chunks.induct)
  case (1 n xs)
  show ?case
  proof (cases "xs = []")
    case True
    with 1 show ?thesis by simp
  next
    case False
    show ?thesis
    proof (cases "drop n xs = []")
      case True
      with 1 False show ?thesis by (simp add: chunks_Cons)
    next
      case d: False
      then have "chunks n (drop n xs) \<noteq> []" using 1(2) by (simp add: chunks_Cons)
      with 1 False d show ?thesis by (auto simp: chunks_Cons)
    qed
  qed
qed

section \<open>The chunk loop of \<open>encrypt\<close>, round by round\<close>

lemma ReadFull_length:
  "ReadFull inp m = ((data, err), inp1) \<Longrightarrow> length data \<le> m"
  by (auto simp: ReadFull_def split: if_splits)

lemma ReadFull_final [simp]: "final (snd (ReadFull inp m)) = final inp"
  by (simp add: ReadFull_def)

lemma ReadFull_full:
  "ReadFull inp m = ((data, None), inp1) \<Longrightarrow>
     data = take m (pending inp) \<and> pending inp1 = drop m (pending inp) \<and> m \<le> length (pending inp)
     \<and> final inp1 = final inp"
  by (auto simp: ReadFull_def split: if_splits)

lemma encrypt_loop_done:
  "encrypt_loop out encoder encrypter dek ci armor True inp s = (None, inp, s)"
  by (simp add: encrypt_loop.simps)

lemma encrypt_loop_cases:
  assumes "encrypt_loop out encoder encrypter dek ci armor False inp s = (r, inp', s')"
  obtains
    (eof) data err inp1 where
      "ReadFull inp chunkSize = ((data, err), inp1)" "errors_Is err io_EOF"
      "r = None" "inp' = inp1" "s' = \<lparr>world = world s, calls = calls s @ [Call_ReadFull (length data)]\<rparr>"
  | (read_error) data err inp1 where
      "ReadFull inp chunkSize = ((data, err), inp1)"
      "\<not> errors_Is err io_EOF" "\<not> errors_Is err io_ErrUnexpectedEOF" "err \<noteq> None"
      "r = map_option (Errorf ''decoding input data'') err" "inp' = inp1"
      "s' = \<lparr>world = world s, calls = calls s @ [Call_ReadFull (length data)]\<rparr>"
  | (cipher_error) data err inp1 e w2 where
      "ReadFull inp chunkSize = ((data, err), inp1)"
      "\<not> errors_Is err io_EOF" "err = None \<or> errors_Is err io_ErrUnexpectedEOF"
      "encrypter dek data (world s) = (Inl e, w2)"
      "r = Some (Errorf ''encrypt data'' e)" "inp' = inp1"
      "s' = \<lparr>world = w2, calls = calls s @ [Call_ReadFull (length data), Call_Encrypt dek data]\<rparr>"
  | (encode_error) data err inp1 c w2 e w3 where
      "ReadFull inp chunkSize = ((data, err), inp1)"
      "\<not> errors_Is err io_EOF" "err = None \<or> errors_Is err io_ErrUnexpectedEOF"
      "encrypter dek data (world s) = (Inr c, w2)"
      "encoder out (ci\<lparr>CipherData := c\<rparr>) armor w2 = (Some e, w3)"
      "r = Some (Errorf ''encode'' e)" "inp' = inp1"
      "s' = \<lparr>world = w3, calls = calls s @ [Call_ReadFull (length data), Call_Encrypt dek data,
              Call_Encode (ci\<lparr>CipherData := c\<rparr>) armor]\<rparr>"
  | (next_round) data err inp1 c w2 w3 where
      "ReadFull inp chunkSize = ((data, err), inp1)"
      "\<not> errors_Is err io_EOF" "err = None \<or> errors_Is err io_ErrUnexpectedEOF"
      "encrypter dek data (world s) = (Inr c, w2)"
      "encoder out (ci\<lparr>CipherData := c\<rparr>) armor w2 = (None, w3)"
      "encrypt_loop out encoder encrypter dek (ci\<lparr>CipherData := c\<rparr>) armor
         (errors_Is err io_ErrUnexpectedEOF) inp1
         \<lparr>world = w3, calls = calls s @ [Call_ReadFull (length data), Call_Encrypt dek data,
              Call_Encode (ci\<lparr>CipherData := c\<rparr>) armor]\<rparr> = (r, inp', s')"
proof -
  obtain data err inp1 where rf: "ReadFull inp chunkSize = ((data, err), inp1)"
    by (cases "ReadFull inp chunkSize") auto
  obtain r2 w2 where en: "encrypter dek data (world s) = (r2, w2)"
    by (cases "encrypter dek data (world s)") auto
  show thesis
  proof (cases "errors_Is err io_EOF")
    case True
    with assms rf show thesis
      by (intro eof [of data err inp1]) (simp_all add: encrypt_loop.simps note_call_def)
  next
    case noeof: False
    show thesis
    proof (cases "\<not> errors_Is err io_ErrUnexpectedEOF \<and> err \<noteq> None")
      case True
      with assms rf noeof show thesis
        by (intro read_error [of data err inp1]) (simp_all add: encrypt_loop.simps note_call_def)
    next
      case False
      then have chunk: "err = None \<or> errors_Is err io_ErrUnexpectedEOF" by auto
      show thesis
      proof (cases r2)
        case (Inl e)
        with assms rf noeof False en show thesis
          by (intro cipher_error [of data err inp1 e w2])
             (auto simp: encrypt_loop.simps note_call_def call_def)
      next
        case (Inr c)
        obtain r3 w3 where ec: "encoder out (ci\<lparr>CipherData := c\<rparr>) armor w2 = (r3, w3)"
          by (cases "encoder out (ci\<lparr>CipherData := c\<rparr>) armor w2") auto
        show thesis
        proof (cases r3)
          case (Some e)
          with assms rf noeof False en Inr ec show thesis
            by (intro encode_error [of data err inp1 c w2 e w3])
               (auto simp: encrypt_loop.simps note_call_def call_def)
        next
          case None
          have "encrypt_loop out encoder encrypter dek (ci\<lparr>CipherData := c\<rparr>) armor
                 (errors_Is err io_ErrUnexpectedEOF) inp1
                 \<lparr>world = w3, calls = calls s @ [Call_ReadFull (length data), Call_Encrypt dek data,
                    Call_Encode (ci\<lparr>CipherData := c\<rparr>) armor]\<rparr> = (r, inp', s')"
            using assms rf noeof False en Inr ec None
            by (subst (asm) encrypt_loop.simps) (auto simp: note_call_def call_def Let_def errors_Is_def)
          with rf noeof chunk en Inr ec None show thesis
            by (intro next_round [of data err inp1 c w2 w3]) auto
        qed
      qed
    qed
  qed
qed


lemma encrypt_loop_induct [consumes 1, case_names finished eof read_error cipher_error encode_error next_round]:
  assumes run: "encrypt_loop out encoder encrypter dek ci armor done inp s = (r, inp', s')"
    and finished: "\<And>ci inp s. P ci True inp s None inp s"
    and eof: "\<And>ci inp s data err inp1.
      ReadFull inp chunkSize = ((data, err), inp1) \<Longrightarrow> errors_Is err io_EOF \<Longrightarrow>
      P ci False inp s None inp1 \<lparr>world = world s, calls = calls s @ [Call_ReadFull (length data)]\<rparr>"
    and read_error: "\<And>ci inp s data err inp1.
      ReadFull inp chunkSize = ((data, err), inp1) \<Longrightarrow>
      \<not> errors_Is err io_EOF \<Longrightarrow> \<not> errors_Is err io_ErrUnexpectedEOF \<Longrightarrow> err \<noteq> None \<Longrightarrow>
      P ci False inp s (map_option (Errorf ''decoding input data'') err) inp1
        \<lparr>world = world s, calls = calls s @ [Call_ReadFull (length data)]\<rparr>"
    and cipher_error: "\<And>ci inp s data err inp1 e w2.
      ReadFull inp chunkSize = ((data, err), inp1) \<Longrightarrow>
      \<not> errors_Is err io_EOF \<Longrightarrow> err = None \<or> errors_Is err io_ErrUnexpectedEOF \<Longrightarrow>
      encrypter dek data (world s) = (Inl e, w2) \<Longrightarrow>
      P ci False inp s (Some (Errorf ''encrypt data'' e)) inp1
        \<lparr>world = w2, calls = calls s @ [Call_ReadFull (length data), Call_Encrypt dek data]\<rparr>"
    and encode_error: "\<And>ci inp s data err inp1 c w2 e w3.
      ReadFull inp chunkSize = ((data, err), inp1) \<Longrightarrow>
      \<not> errors_Is err io_EOF \<Longrightarrow> err = None \<or> errors_Is err io_ErrUnexpectedEOF \<Longrightarrow>
      encrypter dek data (world s) = (Inr c, w2) \<Longrightarrow>
      encoder out (ci\<lparr>CipherData := c\<rparr>) armor w2 = (Some e, w3) \<Longrightarrow>
      P ci False inp s (Some (Errorf ''encode'' e)) inp1
        \<lparr>world = w3, calls = calls s @ [Call_ReadFull (length data), Call_Encrypt dek data,
           Call_Encode (ci\<lparr>CipherData := c\<rparr>) armor]\<rparr>"
    and next_round: "\<And>ci inp s data err inp1 c w2 w3 r inp' s'.
      ReadFull inp chunkSize = ((data, err), inp1) \<Longrightarrow>
      \<not> errors_Is err io_EOF \<Longrightarrow> err = None \<or> errors_Is err io_ErrUnexpectedEOF \<Longrightarrow>
      encrypter dek data (world s) = (Inr c, w2) \<Longrightarrow>
      encoder out (ci\<lparr>CipherData := c\<rparr>) armor w2 = (None, w3) \<Longrightarrow>
      encrypt_loop out encoder encrypter dek (ci\<lparr>CipherData := c\<rparr>) armor
         (errors_Is err io_ErrUnexpectedEOF) inp1
         \<lparr>world = w3, calls = calls s @ [Call_ReadFull (length data), Call_Encrypt dek data,
              Call_Encode (ci\<lparr>CipherData := c\<rparr>) armor]\<rparr> = (r, inp', s') \<Longrightarrow>
      P (ci\<lparr>CipherData := c\<rparr>) (errors_Is err io_ErrUnexpectedEOF) inp1
         \<lparr>world = w3, calls = calls s @ [Call_ReadFull (length data), Call_Encrypt dek data,
              Call_Encode (ci\<lparr>CipherData := c\<rparr>) armor]\<rparr> r inp' s' \<Longrightarrow>
      P ci False inp s r inp' s'"
  shows "P ci done inp s r inp' s'"
proof -
  have "encrypt_loop out encoder encrypter dek ci armor done inp s = (r, inp', s') \<Longrightarrow>
        P ci done inp s r inp' s'"
    if "(if done then 0 else Suc (length (pending inp))) = n" for n ci "done" inp s r inp' s'
    using that
  proof (induction n arbitrary: ci "done" inp s r inp' s' rule: less_induct)
    case (less n)
    show ?case
    proof (cases "done")
      case True
      with less.prems(1) show ?thesis
        by (simp add: encrypt_loop_done finished)
    next
      case False
      with less.prems(1)
      have run': "encrypt_loop out encoder encrypter dek ci armor False inp s = (r, inp', s')"
        by simp
      from run' show ?thesis
      proof (cases rule: encrypt_loop_cases)
        case (eof data err inp1)
        with False show ?thesis using assms(3) by simp
      next
        case (read_error data err inp1)
        with False show ?thesis using assms(4) by simp
      next
        case (cipher_error data err inp1 e w2)
        with False show ?thesis using assms(5) by simp
      next
        case (encode_error data err inp1 c w2 e w3)
        with False show ?thesis using assms(6) by simp
      next
        case (next_round data err inp1 c w2 w3)
        have smaller: "(if errors_Is err io_ErrUnexpectedEOF then 0 else Suc (length (pending inp1))) < n"
        proof (cases "errors_Is err io_ErrUnexpectedEOF")
          case True
          with less.prems(2) False show ?thesis by auto
        next
          case nu: False
          with next_round(3) have "err = None" by simp
          with next_round(1) have "pending inp1 = drop chunkSize (pending inp)"
            "chunkSize \<le> length (pending inp)"
            using ReadFull_full by blast+
          with less.prems(2) False nu show ?thesis by (auto simp: chunkSize_def)
        qed
        have "P (ci\<lparr>CipherData := c\<rparr>) (errors_Is err io_ErrUnexpectedEOF) inp1
           \<lparr>world = w3, calls = calls s @ [Call_ReadFull (length data), Call_Encrypt dek data,
                Call_Encode (ci\<lparr>CipherData := c\<rparr>) armor]\<rparr> r inp' s'"
          using less.IH [OF smaller next_round(6) refl] .
        with next_round False show ?thesis using assms(7) by simp
      qed
    qed
  qed
  with run show ?thesis by simp
qed

lemma loop_event_CipherData [simp]:
  "loop_event dek (ci\<lparr>CipherData := c\<rparr>) armor e = loop_event dek ci armor e"
  by (cases e) simp_all

lemma ReadFull_EOF_empty:
  "ReadFull inp chunkSize = ((data, err), inp1) \<Longrightarrow> final inp = io_EOF \<Longrightarrow> errors_Is err io_EOF \<Longrightarrow>
     pending inp = [] \<and> data = []"
  by (auto simp: ReadFull_def errors_Is_def chunkSize_def split: if_splits)

lemma ReadFull_short:
  "ReadFull inp chunkSize = ((data, err), inp1) \<Longrightarrow> final inp = io_EOF \<Longrightarrow>
     errors_Is err io_ErrUnexpectedEOF \<Longrightarrow>
     data = pending inp \<and> pending inp \<noteq> [] \<and> length (pending inp) < chunkSize"
  by (auto simp: ReadFull_def errors_Is_def chunkSize_def split: if_splits)


lemma encrypt_loop_events:
  assumes "encrypt_loop out encoder encrypter dek ci armor done inp s = (r, inp', s')"
  shows "\<exists>evs. calls s' = calls s @ evs
           \<and> (\<forall>e \<in> set evs. loop_event dek ci armor e)
           \<and> (done \<longrightarrow> evs = [])"
  using assms
proof (induction rule: encrypt_loop_induct)
  case (next_round ci inp s data err inp1 c w2 w3 r inp' s')
  then show ?case
    by (auto dest: ReadFull_length)
qed (auto dest: ReadFull_length)
lemma chunkSize_pos: "0 < chunkSize"
  by (simp add: chunkSize_def)

lemma sealed_byI:
  "encrypter dek data w = (Inr c, w2) \<Longrightarrow> sealed_by encrypter dek (ci\<lparr>CipherData := c\<rparr>) data"
  by (auto simp: sealed_by_def)

lemma encrypt_loop_frames:
  assumes "encrypt_loop out encoder encrypter dek ci armor done inp s = (r, inp', s')"
  shows "\<exists>evs. calls s' = calls s @ evs
           \<and> length (encoded_frames evs) \<le> length (encrypted_chunks evs)
           \<and> (r = None \<longrightarrow> length (encoded_frames evs) = length (encrypted_chunks evs))
           \<and> list_all2 (sealed_by encrypter dek) (encoded_frames evs)
                 (take (length (encoded_frames evs)) (encrypted_chunks evs))"
  using assms
proof (induction rule: encrypt_loop_induct)
  case (next_round ci inp s data err inp1 c w2 w3 r inp' s')
  then obtain evs where
    "calls s' = calls s @ Call_ReadFull (length data) # Call_Encrypt dek data
        # Call_Encode (ci\<lparr>CipherData := c\<rparr>) armor # evs"
    "length (encoded_frames evs) \<le> length (encrypted_chunks evs)"
    "r = None \<longrightarrow> length (encoded_frames evs) = length (encrypted_chunks evs)"
    "list_all2 (sealed_by encrypter dek) (encoded_frames evs)
       (take (length (encoded_frames evs)) (encrypted_chunks evs))"
    by auto
  moreover have "sealed_by encrypter dek (ci\<lparr>CipherData := c\<rparr>) data"
    using next_round(4) by (rule sealed_byI)
  ultimately show ?case
    by (intro exI [of _ "Call_ReadFull (length data) # Call_Encrypt dek data
        # Call_Encode (ci\<lparr>CipherData := c\<rparr>) armor # evs"]) simp
qed (auto intro: sealed_byI)


lemma encrypt_loop_chunks:
  assumes "encrypt_loop out encoder encrypter dek ci armor done inp s = (r, inp', s')"
  shows "\<exists>evs. calls s' = calls s @ evs
           \<and> (done \<longrightarrow> evs = [])
           \<and> (\<not> done \<and> final inp = io_EOF \<and> r = None \<longrightarrow>
                 encrypted_chunks evs = chunks chunkSize (pending inp))"
  using assms
proof (induction rule: encrypt_loop_induct)
  case (eof ci inp s data err inp1)
  then show ?case by (auto dest: ReadFull_EOF_empty)
next
  case (next_round ci inp s data err inp1 c w2 w3 r inp' s')
  have fin: "final inp1 = final inp"
    using next_round(1) ReadFull_final [of inp chunkSize] by simp
  from next_round(7) obtain evs where evs:
    "calls s' = calls s @ Call_ReadFull (length data) # Call_Encrypt dek data
        # Call_Encode (ci\<lparr>CipherData := c\<rparr>) armor # evs"
    "errors_Is err io_ErrUnexpectedEOF \<longrightarrow> evs = []"
    "\<not> errors_Is err io_ErrUnexpectedEOF \<and> final inp1 = io_EOF \<and> r = None \<longrightarrow>
       encrypted_chunks evs = chunks chunkSize (pending inp1)"
    by auto
  have "encrypted_chunks (Call_ReadFull (length data) # Call_Encrypt dek data
        # Call_Encode (ci\<lparr>CipherData := c\<rparr>) armor # evs) = chunks chunkSize (pending inp)"
    if eofr: "final inp = io_EOF" and ok: "r = None"
  proof (cases "errors_Is err io_ErrUnexpectedEOF")
    case True
    with next_round(1) eofr have "data = pending inp" "pending inp \<noteq> []" "length (pending inp) < chunkSize"
      using ReadFull_short by blast+
    with True evs(2) show ?thesis
      by (simp add: chunks_short chunkSize_pos)
  next
    case False
    with next_round(3) have "err = None" by simp
    with next_round(1) have rf: "data = take chunkSize (pending inp)"
      "pending inp1 = drop chunkSize (pending inp)" "chunkSize \<le> length (pending inp)"
      using ReadFull_full by blast+
    then have "pending inp \<noteq> []" by (auto simp: chunkSize_def)
    with rf False evs(3) fin eofr ok show ?thesis
      by (simp add: chunks_Cons [of chunkSize "pending inp"] chunkSize_pos)
  qed
  with evs(1) show ?case
    by (intro exI [of _ "Call_ReadFull (length data) # Call_Encrypt dek data
        # Call_Encode (ci\<lparr>CipherData := c\<rparr>) armor # evs"]) simp
qed auto

section \<open>\<open>encrypt\<close> as a whole\<close>

lemma new_calls_append: "calls s' = calls s @ evs \<Longrightarrow> new_calls s s' = evs"
  by (simp add: new_calls_def)

lemma encrypt_cases:
  assumes "encrypt L ctx out inp encoder network encrypter R ident armor s = (r, inp', s')"
  obtains
    (random_error) e w1 where
      "rand_Read L fileKeySize (world s) = (Inl e, w1)"
      "r = Some (Errorf ''random key'' e)" "inp' = inp"
      "s' = \<lparr>world = w1, calls = calls s @ [Call_rand_Read fileKeySize]\<rparr>"
  | (public_key_error) delivered w1 e w2 where
      "rand_Read L fileKeySize (world s) = (Inr delivered, w1)"
      "PublicKey network ctx w1 = (Inl e, w2)"
      "r = Some (Errorf ''public key'' e)" "inp' = inp"
      "s' = \<lparr>world = w2, calls = calls s @ [Call_rand_Read fileKeySize, Call_PublicKey]\<rparr>"
  | (ibe_error) delivered w1 publicKey w2 e w3 where
      "rand_Read L fileKeySize (world s) = (Inr delivered, w1)"
      "PublicKey network ctx w1 = (Inr publicKey, w2)"
      "ibe_Encrypt L publicKey ident (go_copy (replicate fileKeySize 0) delivered) w2 = (Inl e, w3)"
      "r = Some (Errorf ''encrypt dek'' e)" "inp' = inp"
      "s' = \<lparr>world = w3, calls = calls s @ [Call_rand_Read fileKeySize, Call_PublicKey,
              Call_ibe_Encrypt ident (go_copy (replicate fileKeySize 0) delivered)]\<rparr>"
  | (marshal_error) delivered w1 publicKey w2 cipherText w3 e where
      "rand_Read L fileKeySize (world s) = (Inr delivered, w1)"
      "PublicKey network ctx w1 = (Inr publicKey, w2)"
      "ibe_Encrypt L publicKey ident (go_copy (replicate fileKeySize 0) delivered) w2 = (Inr cipherText, w3)"
      "G1_MarshalBinary L (ct_U cipherText) = Inl e"
      "r = Some (Errorf ''marshal kyber point'' e)" "inp' = inp"
      "s' = \<lparr>world = w3, calls = calls s @ [Call_rand_Read fileKeySize, Call_PublicKey,
              Call_ibe_Encrypt ident (go_copy (replicate fileKeySize 0) delivered)]\<rparr>"
  | (chunk_loop) delivered w1 publicKey w2 cipherText w3 kyberPoint where
      "rand_Read L fileKeySize (world s) = (Inr delivered, w1)"
      "PublicKey network ctx w1 = (Inr publicKey, w2)"
      "ibe_Encrypt L publicKey ident (go_copy (replicate fileKeySize 0) delivered) w2 = (Inr cipherText, w3)"
      "G1_MarshalBinary L (ct_U cipherText) = Inr kyberPoint"
      "encrypt_loop out encoder encrypter (go_copy (replicate fileKeySize 0) delivered)
         \<lparr>MetaData = \<lparr>RoundNumber = R, ChainHash = Network_ChainHash network w3\<rparr>,
          CipherDEK = \<lparr>KyberPoint = kyberPoint, CipherV = ct_V cipherText, CipherW = ct_W cipherText\<rparr>,
          CipherData = []\<rparr> armor False inp
         \<lparr>world = w3, calls = calls s @ [Call_rand_Read fileKeySize, Call_PublicKey,
              Call_ibe_Encrypt ident (go_copy (replicate fileKeySize 0) delivered)]\<rparr> = (r, inp', s')"
proof -
  obtain r1 w1 where a: "rand_Read L fileKeySize (world s) = (r1, w1)"
    by (cases "rand_Read L fileKeySize (world s)") auto
  obtain r2 w2 where b: "PublicKey network ctx w1 = (r2, w2)"
    by (cases "PublicKey network ctx w1") auto
  show thesis
  proof (cases r1)
    case (Inl e)
    with assms a show thesis
      by (intro random_error [of e w1]) (auto simp: encrypt_def call_def)
  next
    case r1: (Inr delivered)
    show thesis
    proof (cases r2)
      case (Inl e)
      with assms a b r1 show thesis
        by (intro public_key_error [of delivered w1 e w2]) (auto simp: encrypt_def call_def Let_def)
    next
      case r2: (Inr publicKey)
      obtain r3 w3 where c:
        "ibe_Encrypt L publicKey ident (go_copy (replicate fileKeySize 0) delivered) w2 = (r3, w3)"
        by (cases "ibe_Encrypt L publicKey ident (go_copy (replicate fileKeySize 0) delivered) w2") auto
      show thesis
      proof (cases r3)
        case (Inl e)
        with assms a b c r1 r2 show thesis
          by (intro ibe_error [of delivered w1 publicKey w2 e w3]) (auto simp: encrypt_def call_def Let_def)
      next
        case r3: (Inr cipherText)
        show thesis
        proof (cases "G1_MarshalBinary L (ct_U cipherText)")
          case (Inl e)
          with assms a b c r1 r2 r3 show thesis
            by (intro marshal_error [of delivered w1 publicKey w2 cipherText w3 e])
               (auto simp: encrypt_def call_def Let_def)
        next
          case (Inr kyberPoint)
          with assms a b c r1 r2 r3 show thesis
            by (intro chunk_loop [of delivered w1 publicKey w2 cipherText w3 kyberPoint])
               (auto simp: encrypt_def call_def Let_def)
        qed
      qed
    qed
  qed
qed

lemma length_go_copy [simp]: "length (go_copy dst src) = length dst"
  by (auto simp: go_copy_def)

section \<open>Frames and chunks\<close>

text \<open>
  C5. When \<open>encrypt\<close> returns \<open>nil\<close> on a plaintext \<open>P\<close> of length \<open>L\<close> that
  ends with \<open>io.EOF\<close>, the chunks it handed to the cipher are exactly the consecutive
  65536-byte pieces of \<open>P\<close>; the encoder was called once per chunk, in order, on a
  frame whose \<open>CipherData\<close> the cipher returned for that chunk; so the number of
  frames is \<open>(L + 65535) div 65536\<close>, the ceiling of \<open>L / 65536\<close>. Every chunk but
  the last has 65536 bytes, the last has between 1 and 65536, and for \<open>L = 0\<close> the
  encoder is never called.
\<close>

theorem encrypt_one_frame_per_chunk:
  assumes "encrypt L ctx out (bytes_Reader P) encoder network encrypter R ident armor s = (None, inp', s')"
  shows "length (encoded_frames (new_calls s s')) = (length P + 65535) div 65536
       \<and> encrypted_chunks (new_calls s s') = chunks 65536 P
       \<and> (\<exists>dek. list_all2 (sealed_by encrypter dek) (encoded_frames (new_calls s s')) (chunks 65536 P))
       \<and> concat (chunks 65536 P) = P
       \<and> (\<forall>c \<in> set (butlast (chunks 65536 P)). length c = 65536)
       \<and> (P \<noteq> [] \<longrightarrow> 1 \<le> length (last (chunks 65536 P)) \<and> length (last (chunks 65536 P)) \<le> 65536)
       \<and> (P = [] \<longrightarrow> encoded_frames (new_calls s s') = [])"
  using assms
proof (cases rule: encrypt_cases)
  case (chunk_loop delivered w1 publicKey w2 cipherText w3 kyberPoint)
  let ?dek = "go_copy (replicate fileKeySize 0) delivered"
  let ?s3 = "\<lparr>world = w3, calls = calls s @ [Call_rand_Read fileKeySize, Call_PublicKey,
              Call_ibe_Encrypt ident ?dek]\<rparr>"
  from encrypt_loop_chunks [OF chunk_loop(5)] obtain evs where evs:
    "calls s' = calls ?s3 @ evs" "encrypted_chunks evs = chunks chunkSize P"
    by (auto simp: bytes_Reader_def)
  from encrypt_loop_frames [OF chunk_loop(5)] evs(1) have fr:
    "length (encoded_frames evs) = length (encrypted_chunks evs)"
    "list_all2 (sealed_by encrypter ?dek) (encoded_frames evs)
       (take (length (encoded_frames evs)) (encrypted_chunks evs))"
    by auto
  have nc: "new_calls s s' = [Call_rand_Read fileKeySize, Call_PublicKey, Call_ibe_Encrypt ident ?dek] @ evs"
    using evs(1) by (intro new_calls_append) simp
  have cs: "chunkSize = 65536" by (simp add: chunkSize_def)
  have 1: "length (encoded_frames (new_calls s s')) = (length P + 65535) div 65536"
    using nc fr(1) evs(2) length_chunks [of 65536 P] by (simp add: cs)
  have 2: "encrypted_chunks (new_calls s s') = chunks 65536 P"
    using nc evs(2) by (simp add: cs)
  have 3: "list_all2 (sealed_by encrypter ?dek) (encoded_frames (new_calls s s')) (chunks 65536 P)"
    using nc fr evs(2) by (simp add: cs)
  have 4: "concat (chunks 65536 P) = P"
    by (simp add: concat_chunks)
  have 5: "\<forall>c \<in> set (butlast (chunks 65536 P)). length c = 65536"
    using chunks_butlast_full [of 65536 _ P] by simp
  have 6: "P \<noteq> [] \<longrightarrow> 1 \<le> length (last (chunks 65536 P)) \<and> length (last (chunks 65536 P)) \<le> 65536"
  proof
    assume "P \<noteq> []"
    then have "chunks 65536 P \<noteq> []" by (simp add: chunks_Cons)
    then have "last (chunks 65536 P) \<in> set (chunks 65536 P)" by simp
    then show "1 \<le> length (last (chunks 65536 P)) \<and> length (last (chunks 65536 P)) \<le> 65536"
      using chunks_lengths [of 65536 _ P] by simp
  qed
  have 7: "P = [] \<longrightarrow> encoded_frames (new_calls s s') = []"
    using 1 by auto
  from 1 2 3 4 5 6 7 show ?thesis by blast
qed simp_all

lemma encrypt_loop_round:
  "encrypt_loop out encoder encrypter dek cipherInfo armor False inp s =
     (case ReadFull inp chunkSize of ((data, err), inp') \<Rightarrow>
          (let s1 = note_call (Call_ReadFull (length data)) s in
           if errors_Is err io_EOF then (None, inp', s1)
           else if \<not> errors_Is err io_ErrUnexpectedEOF \<and> err \<noteq> None
           then (map_option (Errorf ''decoding input data'') err, inp', s1)
           else
              (case call (Call_Encrypt dek data) (encrypter dek data) s1 of
                 (Inl e, s2) \<Rightarrow> (Some (Errorf ''encrypt data'' e), inp', s2)
               | (Inr cipherData, s2) \<Rightarrow>
                    (case call (Call_Encode (cipherInfo\<lparr>CipherData := cipherData\<rparr>) armor)
                            (encoder out (cipherInfo\<lparr>CipherData := cipherData\<rparr>) armor) s2 of
                       (Some e, s3) \<Rightarrow> (Some (Errorf ''encode'' e), inp', s3)
                     | (None, s3) \<Rightarrow>
                         encrypt_loop out encoder encrypter dek (cipherInfo\<lparr>CipherData := cipherData\<rparr>)
                           armor (errors_Is err io_ErrUnexpectedEOF) inp' s3))))"
  by (subst encrypt_loop.simps) (auto simp: Let_def split: prod.splits sum.splits option.splits)

lemmas test_doubles =
  test_library_def test_network_def test_writer_def test_encoder_def test_encrypter_def
  test_decrypter_def test_state_def background_def cancelled_def

lemmas run_encrypt =
  encrypt_def encrypt_loop_round encrypt_loop_done call_def note_call_def Let_def
  ReadFull_def bytes_Reader_def chunkSize_def fileKeySize_def go_copy_def errors_Is_def

theorem encrypt_one_frame_per_chunk_witness:
  "fst (encrypt test_library background test_writer (bytes_Reader hello) test_encoder test_network
          test_encrypter 5 [] False test_state) = None
   \<and> length (encoded_frames (new_calls test_state (snd (snd
        (encrypt test_library background test_writer (bytes_Reader hello) test_encoder test_network
          test_encrypter 5 [] False test_state))))) = 1
   \<and> chunks 65536 hello = [hello]"
proof -
  let ?run = "encrypt test_library background test_writer (bytes_Reader hello) test_encoder test_network
          test_encrypter 5 [] False test_state"
  have ok: "fst ?run = None"
    by (simp add: run_encrypt test_doubles hello_def)
  then have "?run = (None, fst (snd ?run), snd (snd ?run))"
    by (metis prod.collapse)
  from encrypt_one_frame_per_chunk [OF this] ok show ?thesis
    by (simp add: hello_def chunks_short)
qed

section \<open>The plaintext of 130,000 bytes\<close>

text \<open>
  The pieces of a plaintext of 130,000 bytes: one of 65,536 bytes and one of 64,464.
\<close>

lemma chunks_of_130000:
  assumes "length P = 130000"
  shows "map length (chunks 65536 P) = [65536, 64464]"
proof -
  from assms have 1: "P \<noteq> []" by auto
  from assms have 2: "drop 65536 P \<noteq> []" by auto
  from assms have 3: "length (drop 65536 P) \<le> 65536" by simp
  have "chunks 65536 P = [take 65536 P, drop 65536 P]"
    using 1 2 3 by (simp add: chunks_Cons [of 65536 P] chunks_short)
  with assms show ?thesis by simp
qed

section \<open>One key per session\<close>

lemma loop_events_no_key_material:
  "\<forall>e \<in> set evs. loop_event dek ci armor e \<Longrightarrow>
     filter is_rand_Read evs = [] \<and> filter is_ibe_Encrypt evs = []
     \<and> (\<forall>e \<in> set evs. \<forall>k p. e = Call_Encrypt k p \<longrightarrow> k = dek)
     \<and> (\<forall>f \<in> set (encoded_frames evs). MetaData f = MetaData ci \<and> CipherDEK f = CipherDEK ci)"
proof (induction evs)
  case Nil
  then show ?case by simp
next
  case (Cons e evs)
  then show ?case by (cases e) auto
qed

lemma go_copy_fresh_buffer:
  "go_copy (replicate n 0) delivered = take n delivered @ replicate (n - length delivered) 0"
  by (simp add: go_copy_def)

text \<open>
  C6. In every run of \<open>encrypt\<close> the random source is read exactly once, for 32 bytes,
  as the first call, and the session's key is what that read delivered: the first 32
  bytes delivered, over a buffer of 32 zero bytes (so exactly the delivered bytes when
  the source delivers 32). \<open>ibe.Encrypt\<close> is called at most once, and exactly once
  (third call, after the public key, on that key) in every run that returns \<open>nil\<close>
  or hands a frame to the encoder; the symmetric cipher is only ever called with that
  one key; and any two frames handed to the encoder have the same \<open>MetaData\<close> and
  the same \<open>CipherDEK\<close>.
\<close>

theorem encrypt_one_key_per_session:
  assumes "encrypt L ctx out inp encoder network encrypter R ident armor s = (r, inp', s')"
  shows "\<exists>dek. length dek = 32
      \<and> (\<forall>delivered w1. rand_Read L 32 (world s) = (Inr delivered, w1) \<longrightarrow>
            dek = take 32 delivered @ replicate (32 - length delivered) 0
            \<and> (length delivered = 32 \<longrightarrow> dek = delivered))
      \<and> length (filter is_rand_Read (new_calls s s')) = 1
      \<and> hd (new_calls s s') = Call_rand_Read 32
      \<and> length (filter is_ibe_Encrypt (new_calls s s')) \<le> 1
      \<and> (r = None \<or> encoded_frames (new_calls s s') \<noteq> [] \<longrightarrow>
            take 3 (new_calls s s') = [Call_rand_Read 32, Call_PublicKey, Call_ibe_Encrypt ident dek]
            \<and> length (filter is_ibe_Encrypt (new_calls s s')) = 1
            \<and> (\<exists>delivered w1. rand_Read L 32 (world s) = (Inr delivered, w1)))
      \<and> (\<forall>e \<in> set (new_calls s s'). \<forall>k p. e = Call_Encrypt k p \<longrightarrow> k = dek)
      \<and> (\<forall>e \<in> set (new_calls s s'). \<forall>i k. e = Call_ibe_Encrypt i k \<longrightarrow> i = ident \<and> k = dek)
      \<and> (\<forall>f \<in> set (encoded_frames (new_calls s s')). \<forall>g \<in> set (encoded_frames (new_calls s s')).
            MetaData f = MetaData g \<and> CipherDEK f = CipherDEK g)"
  using assms
proof (cases rule: encrypt_cases)
  case (random_error e w1)
  then have "new_calls s s' = [Call_rand_Read 32]"
    by (simp add: new_calls_def fileKeySize_def)
  with random_error show ?thesis
    by (intro exI [of _ "replicate 32 0"]) (simp add: fileKeySize_def)
next
  case (public_key_error delivered w1 e w2)
  then have "new_calls s s' = [Call_rand_Read 32, Call_PublicKey]"
    by (simp add: new_calls_def fileKeySize_def)
  with public_key_error show ?thesis
    by (intro exI [of _ "go_copy (replicate 32 0) delivered"])
       (simp add: fileKeySize_def go_copy_fresh_buffer)
next
  case (ibe_error delivered w1 publicKey w2 e w3)
  then have "new_calls s s' = [Call_rand_Read 32, Call_PublicKey,
      Call_ibe_Encrypt ident (go_copy (replicate 32 0) delivered)]"
    by (simp add: new_calls_def fileKeySize_def)
  with ibe_error show ?thesis
    by (intro exI [of _ "go_copy (replicate 32 0) delivered"])
       (simp add: fileKeySize_def go_copy_fresh_buffer)
next
  case (marshal_error delivered w1 publicKey w2 cipherText w3 e)
  then have "new_calls s s' = [Call_rand_Read 32, Call_PublicKey,
      Call_ibe_Encrypt ident (go_copy (replicate 32 0) delivered)]"
    by (simp add: new_calls_def fileKeySize_def)
  with marshal_error show ?thesis
    by (intro exI [of _ "go_copy (replicate 32 0) delivered"])
       (simp add: fileKeySize_def go_copy_fresh_buffer)
next
  case (chunk_loop delivered w1 publicKey w2 cipherText w3 kyberPoint)
  let ?dek = "go_copy (replicate 32 0) delivered"
  from encrypt_loop_events [OF chunk_loop(5)] obtain evs where evs:
    "calls s' = calls s @ [Call_rand_Read 32, Call_PublicKey, Call_ibe_Encrypt ident ?dek] @ evs"
    "\<forall>e \<in> set evs. loop_event ?dek
        \<lparr>MetaData = \<lparr>RoundNumber = R, ChainHash = Network_ChainHash network w3\<rparr>,
          CipherDEK = \<lparr>KyberPoint = kyberPoint, CipherV = ct_V cipherText, CipherW = ct_W cipherText\<rparr>,
          CipherData = []\<rparr> armor e"
    by (auto simp: fileKeySize_def)
  have nc: "new_calls s s' = [Call_rand_Read 32, Call_PublicKey, Call_ibe_Encrypt ident ?dek] @ evs"
    using evs(1) by (rule new_calls_append)
  have no_wrap: "\<forall>e \<in> set evs. \<forall>i k. e \<noteq> Call_ibe_Encrypt i k"
  proof
    fix e assume "e \<in> set evs"
    with evs(2) have "loop_event ?dek
        \<lparr>MetaData = \<lparr>RoundNumber = R, ChainHash = Network_ChainHash network w3\<rparr>,
          CipherDEK = \<lparr>KyberPoint = kyberPoint, CipherV = ct_V cipherText, CipherW = ct_W cipherText\<rparr>,
          CipherData = []\<rparr> armor e" by blast
    then show "\<forall>i k. e \<noteq> Call_ibe_Encrypt i k" by (cases e) simp_all
  qed
  have drawn: "rand_Read L 32 (world s) = (Inr delivered, w1)"
    using chunk_loop(1) by (simp add: fileKeySize_def)
  from loop_events_no_key_material [OF evs(2)] nc no_wrap drawn show ?thesis
    by (intro exI [of _ ?dek]) (auto simp: go_copy_fresh_buffer)
qed

theorem encrypt_one_key_per_session_witness:
  "fst (encrypt test_library background test_writer (bytes_Reader hello) test_encoder test_network
          test_encrypter 5 [] False test_state) = None
   \<and> rand_Read test_library 32 (world test_state) = (Inr (replicate 32 7), world test_state)
   \<and> take 3 (new_calls test_state (snd (snd
        (encrypt test_library background test_writer (bytes_Reader hello) test_encoder test_network
          test_encrypter 5 [] False test_state)))) =
       [Call_rand_Read 32, Call_PublicKey, Call_ibe_Encrypt [] (replicate 32 7)]
   \<and> length (filter is_rand_Read (new_calls test_state (snd (snd
        (encrypt test_library background test_writer (bytes_Reader hello) test_encoder test_network
          test_encrypter 5 [] False test_state))))) = 1
   \<and> length (filter is_ibe_Encrypt (new_calls test_state (snd (snd
        (encrypt test_library background test_writer (bytes_Reader hello) test_encoder test_network
          test_encrypter 5 [] False test_state))))) = 1"
proof -
  let ?run = "encrypt test_library background test_writer (bytes_Reader hello) test_encoder test_network
          test_encrypter 5 [] False test_state"
  have ok: "fst ?run = None"
    by (simp add: run_encrypt test_doubles hello_def)
  have drawn: "rand_Read test_library 32 (world test_state) = (Inr (replicate 32 7), world test_state)"
    by (simp add: test_library_def)
  from ok have "?run = (None, fst (snd ?run), snd (snd ?run))"
    by (metis prod.collapse)
  from encrypt_one_key_per_session [OF this] obtain dek where dek:
    "\<forall>delivered w1. rand_Read test_library 32 (world test_state) = (Inr delivered, w1) \<longrightarrow>
        dek = take 32 delivered @ replicate (32 - length delivered) 0
        \<and> (length delivered = 32 \<longrightarrow> dek = delivered)"
    "length (filter is_rand_Read (new_calls test_state (snd (snd ?run)))) = 1"
    "take 3 (new_calls test_state (snd (snd ?run))) = [Call_rand_Read 32, Call_PublicKey, Call_ibe_Encrypt [] dek]"
    "length (filter is_ibe_Encrypt (new_calls test_state (snd (snd ?run)))) = 1"
    by auto
  from dek(1) drawn have "dek = replicate 32 7"
    by simp
  with ok drawn dek show ?thesis
    by simp
qed

section \<open>Empty chunks\<close>




section \<open>\<open>decryptDEK\<close> and the loop of \<open>Decrypt\<close>, round by round\<close>

lemma decryptDEK_cases:
  assumes "decryptDEK L ctx cipherDEK network R s = (res, s')"
  obtains
    (not_ready) ident w1 where
      "IsReadyToDecrypt network ctx R (world s) = ((ident, False), w1)"
      "res = Inl ErrTooEarly"
      "s' = \<lparr>world = w1, calls = calls s @ [Call_IsReadyToDecrypt R]\<rparr>"
  | (bad_signature) ident w1 e where
      "IsReadyToDecrypt network ctx R (world s) = ((ident, True), w1)"
      "G2_UnmarshalBinary L ident = Inl e"
      "res = Inl (Errorf ''unmarshal kyber G2'' e)"
      "s' = \<lparr>world = w1, calls = calls s @ [Call_IsReadyToDecrypt R]\<rparr>"
  | (bad_point) ident w1 dekSignature e where
      "IsReadyToDecrypt network ctx R (world s) = ((ident, True), w1)"
      "G2_UnmarshalBinary L ident = Inr dekSignature"
      "G1_UnmarshalBinary L (KyberPoint cipherDEK) = Inl e"
      "res = Inl (Errorf ''unmarshal kyber G1'' e)"
      "s' = \<lparr>world = w1, calls = calls s @ [Call_IsReadyToDecrypt R]\<rparr>"
  | (public_key_error) ident w1 dekSignature dekKyberPoint e w2 where
      "IsReadyToDecrypt network ctx R (world s) = ((ident, True), w1)"
      "G2_UnmarshalBinary L ident = Inr dekSignature"
      "G1_UnmarshalBinary L (KyberPoint cipherDEK) = Inr dekKyberPoint"
      "PublicKey network ctx w1 = (Inl e, w2)"
      "res = Inl (Errorf ''public key'' e)"
      "s' = \<lparr>world = w2, calls = calls s @ [Call_IsReadyToDecrypt R, Call_PublicKey]\<rparr>"
  | (rejected) ident w1 dekSignature dekKyberPoint publicKey w2 e where
      "IsReadyToDecrypt network ctx R (world s) = ((ident, True), w1)"
      "G2_UnmarshalBinary L ident = Inr dekSignature"
      "G1_UnmarshalBinary L (KyberPoint cipherDEK) = Inr dekKyberPoint"
      "PublicKey network ctx w1 = (Inr publicKey, w2)"
      "VerifyBeacon L fixed_scheme \<lparr>PreviousSig = [], Round = R, Signature = ident\<rparr> publicKey = Some e"
      "res = Inl (Errorf ''verify beacon'' e)"
      "s' = \<lparr>world = w2, calls = calls s @ [Call_IsReadyToDecrypt R, Call_PublicKey,
              Call_VerifyBeacon fixed_scheme \<lparr>PreviousSig = [], Round = R, Signature = ident\<rparr> False]\<rparr>"
  | (ibe_error) ident w1 dekSignature dekKyberPoint publicKey w2 e where
      "IsReadyToDecrypt network ctx R (world s) = ((ident, True), w1)"
      "G2_UnmarshalBinary L ident = Inr dekSignature"
      "G1_UnmarshalBinary L (KyberPoint cipherDEK) = Inr dekKyberPoint"
      "PublicKey network ctx w1 = (Inr publicKey, w2)"
      "VerifyBeacon L fixed_scheme \<lparr>PreviousSig = [], Round = R, Signature = ident\<rparr> publicKey = None"
      "ibe_Decrypt L publicKey dekSignature
         \<lparr>ct_U = dekKyberPoint, ct_V = CipherV cipherDEK, ct_W = CipherW cipherDEK\<rparr> = Inl e"
      "res = Inl (Errorf ''decrypt dek'' e)"
      "s' = \<lparr>world = w2, calls = calls s @ [Call_IsReadyToDecrypt R, Call_PublicKey,
              Call_VerifyBeacon fixed_scheme \<lparr>PreviousSig = [], Round = R, Signature = ident\<rparr> True,
              Call_ibe_Decrypt ident cipherDEK]\<rparr>"
  | (unwrapped) ident w1 dekSignature dekKyberPoint publicKey w2 plainDEK where
      "IsReadyToDecrypt network ctx R (world s) = ((ident, True), w1)"
      "G2_UnmarshalBinary L ident = Inr dekSignature"
      "G1_UnmarshalBinary L (KyberPoint cipherDEK) = Inr dekKyberPoint"
      "PublicKey network ctx w1 = (Inr publicKey, w2)"
      "VerifyBeacon L fixed_scheme \<lparr>PreviousSig = [], Round = R, Signature = ident\<rparr> publicKey = None"
      "ibe_Decrypt L publicKey dekSignature
         \<lparr>ct_U = dekKyberPoint, ct_V = CipherV cipherDEK, ct_W = CipherW cipherDEK\<rparr> = Inr plainDEK"
      "res = Inr plainDEK"
      "s' = \<lparr>world = w2, calls = calls s @ [Call_IsReadyToDecrypt R, Call_PublicKey,
              Call_VerifyBeacon fixed_scheme \<lparr>PreviousSig = [], Round = R, Signature = ident\<rparr> True,
              Call_ibe_Decrypt ident cipherDEK]\<rparr>"
proof -
  obtain ident ready w1 where a: "IsReadyToDecrypt network ctx R (world s) = ((ident, ready), w1)"
    by (cases "IsReadyToDecrypt network ctx R (world s)") auto
  obtain r2 w2 where b: "PublicKey network ctx w1 = (r2, w2)"
    by (cases "PublicKey network ctx w1") auto
  show thesis
  proof (cases ready)
    case False
    with assms a show thesis
      by (intro not_ready [of ident w1]) (auto simp: decryptDEK_def call_def)
  next
    case True
    show thesis
    proof (cases "G2_UnmarshalBinary L ident")
      case (Inl e)
      with assms a True show thesis
        by (intro bad_signature [of ident w1 e]) (auto simp: decryptDEK_def call_def)
    next
      case g2: (Inr dekSignature)
      show thesis
      proof (cases "G1_UnmarshalBinary L (KyberPoint cipherDEK)")
        case (Inl e)
        with assms a True g2 show thesis
          by (intro bad_point [of ident w1 dekSignature e]) (auto simp: decryptDEK_def call_def)
      next
        case g1: (Inr dekKyberPoint)
        show thesis
        proof (cases r2)
          case (Inl e)
          with assms a b True g2 g1 show thesis
            by (intro public_key_error [of ident w1 dekSignature dekKyberPoint e w2])
               (auto simp: decryptDEK_def call_def)
        next
          case pk: (Inr publicKey)
          show thesis
          proof (cases "VerifyBeacon L fixed_scheme \<lparr>PreviousSig = [], Round = R, Signature = ident\<rparr> publicKey")
            case (Some e)
            with assms a b True g2 g1 pk show thesis
              by (intro rejected [of ident w1 dekSignature dekKyberPoint publicKey w2 e])
                 (auto simp: decryptDEK_def call_def note_call_def Let_def fixed_scheme_def)
          next
            case None
            show thesis
            proof (cases "ibe_Decrypt L publicKey dekSignature
                \<lparr>ct_U = dekKyberPoint, ct_V = CipherV cipherDEK, ct_W = CipherW cipherDEK\<rparr>")
              case (Inl e)
              with assms a b True g2 g1 pk None show thesis
                by (intro ibe_error [of ident w1 dekSignature dekKyberPoint publicKey w2 e])
                   (auto simp: decryptDEK_def call_def note_call_def Let_def fixed_scheme_def)
            next
              case (Inr plainDEK)
              with assms a b True g2 g1 pk None show thesis
                by (intro unwrapped [of ident w1 dekSignature dekKyberPoint publicKey w2 plainDEK])
                   (auto simp: decryptDEK_def call_def note_call_def Let_def fixed_scheme_def)
            qed
          qed
        qed
      qed
    qed
  qed
qed

lemma Decrypt_loop_cases:
  assumes "Decrypt_loop (Suc n) L ctx out decoder network decrypter armor False inp s = (res, inp', s')"
  obtains
    (eof) info err inp1 where
      "decoder inp armor = ((info, err), inp1)" "errors_Is err io_EOF"
      "res = Returned None" "inp' = inp1"
      "s' = \<lparr>world = world s, calls = calls s @ [Call_Decode info err]\<rparr>"
  | (decode_error) info err inp1 where
      "decoder inp armor = ((info, err), inp1)"
      "\<not> errors_Is err io_EOF" "\<not> errors_Is err io_ErrUnexpectedEOF" "err \<noteq> None"
      "res = Returned (map_option (Errorf ''decoding input data'') err)" "inp' = inp1"
      "s' = \<lparr>world = world s, calls = calls s @ [Call_Decode info err]\<rparr>"
  | (dek_error) info err inp1 e s2 where
      "decoder inp armor = ((info, err), inp1)"
      "\<not> errors_Is err io_EOF" "err = None \<or> errors_Is err io_ErrUnexpectedEOF"
      "decryptDEK L ctx (CipherDEK info) network (RoundNumber (MetaData info))
         \<lparr>world = world s, calls = calls s @ [Call_Decode info err]\<rparr> = (Inl e, s2)"
      "res = Returned (Some (Errorf ''decrypt dek'' e))" "inp' = inp1" "s' = s2"
  | (cipher_error) info err inp1 plainDEK s2 e w3 where
      "decoder inp armor = ((info, err), inp1)"
      "\<not> errors_Is err io_EOF" "err = None \<or> errors_Is err io_ErrUnexpectedEOF"
      "decryptDEK L ctx (CipherDEK info) network (RoundNumber (MetaData info))
         \<lparr>world = world s, calls = calls s @ [Call_Decode info err]\<rparr> = (Inr plainDEK, s2)"
      "decrypter plainDEK (CipherData info) (world s2) = (Inl e, w3)"
      "res = Returned (Some (Errorf ''decrypt data'' e))" "inp' = inp1"
      "s' = \<lparr>world = w3, calls = calls s2 @ [Call_Decrypt plainDEK (CipherData info)]\<rparr>"
  | (write_error) info err inp1 plainDEK s2 plainData w3 k e w4 where
      "decoder inp armor = ((info, err), inp1)"
      "\<not> errors_Is err io_EOF" "err = None \<or> errors_Is err io_ErrUnexpectedEOF"
      "decryptDEK L ctx (CipherDEK info) network (RoundNumber (MetaData info))
         \<lparr>world = world s, calls = calls s @ [Call_Decode info err]\<rparr> = (Inr plainDEK, s2)"
      "decrypter plainDEK (CipherData info) (world s2) = (Inr plainData, w3)"
      "out plainData w3 = ((k, Some e), w4)"
      "res = Returned (Some (Errorf ''write data'' e))" "inp' = inp1"
      "s' = \<lparr>world = w4, calls = calls s2 @ [Call_Decrypt plainDEK (CipherData info), Call_Write plainData]\<rparr>"
  | (next_round) info err inp1 plainDEK s2 plainData w3 k w4 where
      "decoder inp armor = ((info, err), inp1)"
      "\<not> errors_Is err io_EOF" "err = None \<or> errors_Is err io_ErrUnexpectedEOF"
      "decryptDEK L ctx (CipherDEK info) network (RoundNumber (MetaData info))
         \<lparr>world = world s, calls = calls s @ [Call_Decode info err]\<rparr> = (Inr plainDEK, s2)"
      "decrypter plainDEK (CipherData info) (world s2) = (Inr plainData, w3)"
      "out plainData w3 = ((k, None), w4)"
      "Decrypt_loop n L ctx out decoder network decrypter armor (errors_Is err io_ErrUnexpectedEOF) inp1
         \<lparr>world = w4, calls = calls s2 @ [Call_Decrypt plainDEK (CipherData info), Call_Write plainData]\<rparr>
       = (res, inp', s')"
proof -
  obtain info err inp1 where dc: "decoder inp armor = ((info, err), inp1)"
    by (cases "decoder inp armor") auto
  let ?s1 = "\<lparr>world = world s, calls = calls s @ [Call_Decode info err]\<rparr>"
  obtain r2 s2 where dk:
    "decryptDEK L ctx (CipherDEK info) network (RoundNumber (MetaData info)) ?s1 = (r2, s2)"
    by (cases "decryptDEK L ctx (CipherDEK info) network (RoundNumber (MetaData info)) ?s1") auto
  show thesis
  proof (cases "errors_Is err io_EOF")
    case True
    with assms dc show thesis
      by (intro eof [of info err inp1]) (simp_all add: note_call_def)
  next
    case noeof: False
    show thesis
    proof (cases "\<not> errors_Is err io_ErrUnexpectedEOF \<and> err \<noteq> None")
      case True
      with assms dc noeof show thesis
        by (intro decode_error [of info err inp1]) (simp_all add: note_call_def)
    next
      case False
      then have frame: "err = None \<or> errors_Is err io_ErrUnexpectedEOF" by auto
      have flag: "(if errors_Is err io_ErrUnexpectedEOF then True else False) = errors_Is err io_ErrUnexpectedEOF"
        by simp
      show thesis
      proof (cases r2)
        case (Inl e)
        with assms dc noeof False dk show thesis
          by (intro dek_error [of info err inp1 e s2]) (auto simp: note_call_def Let_def)
      next
        case r2: (Inr plainDEK)
        obtain r3 w3 where cp: "decrypter plainDEK (CipherData info) (world s2) = (r3, w3)"
          by (cases "decrypter plainDEK (CipherData info) (world s2)") auto
        show thesis
        proof (cases r3)
          case (Inl e)
          with assms dc noeof False dk r2 cp show thesis
            by (intro cipher_error [of info err inp1 plainDEK s2 e w3])
               (auto simp: note_call_def call_def Let_def)
        next
          case r3: (Inr plainData)
          obtain k r4 w4 where wr: "out plainData w3 = ((k, r4), w4)"
            by (cases "out plainData w3") auto
          show thesis
          proof (cases r4)
            case (Some e)
            with assms dc noeof False dk r2 cp r3 wr show thesis
              by (intro write_error [of info err inp1 plainDEK s2 plainData w3 k e w4])
                 (auto simp: note_call_def call_def Let_def)
          next
            case None
            with assms dc noeof False dk r2 cp r3 wr show thesis
              by (intro next_round [of info err inp1 plainDEK s2 plainData w3 k w4])
                 (auto simp: note_call_def call_def Let_def errors_Is_def)
          qed
        qed
      qed
    qed
  qed
qed

lemma Decrypt_loop_induct [consumes 1, case_names out_of_fuel finished eof decode_error dek_error
    cipher_error write_error next_round]:
  assumes run: "Decrypt_loop n L ctx out decoder network decrypter armor done inp s = (res, inp', s')"
    and out_of_fuel: "\<And>done inp s. P 0 done inp s Unfinished inp s"
    and finished: "\<And>n inp s. P (Suc n) True inp s (Returned None) inp s"
    and eof: "\<And>n inp s info err inp1.
      decoder inp armor = ((info, err), inp1) \<Longrightarrow> errors_Is err io_EOF \<Longrightarrow>
      P (Suc n) False inp s (Returned None) inp1 \<lparr>world = world s, calls = calls s @ [Call_Decode info err]\<rparr>"
    and decode_error: "\<And>n inp s info err inp1.
      decoder inp armor = ((info, err), inp1) \<Longrightarrow>
      \<not> errors_Is err io_EOF \<Longrightarrow> \<not> errors_Is err io_ErrUnexpectedEOF \<Longrightarrow> err \<noteq> None \<Longrightarrow>
      P (Suc n) False inp s (Returned (map_option (Errorf ''decoding input data'') err)) inp1
        \<lparr>world = world s, calls = calls s @ [Call_Decode info err]\<rparr>"
    and dek_error: "\<And>n inp s info err inp1 e s2.
      decoder inp armor = ((info, err), inp1) \<Longrightarrow>
      \<not> errors_Is err io_EOF \<Longrightarrow> err = None \<or> errors_Is err io_ErrUnexpectedEOF \<Longrightarrow>
      decryptDEK L ctx (CipherDEK info) network (RoundNumber (MetaData info))
         \<lparr>world = world s, calls = calls s @ [Call_Decode info err]\<rparr> = (Inl e, s2) \<Longrightarrow>
      P (Suc n) False inp s (Returned (Some (Errorf ''decrypt dek'' e))) inp1 s2"
    and cipher_error: "\<And>n inp s info err inp1 plainDEK s2 e w3.
      decoder inp armor = ((info, err), inp1) \<Longrightarrow>
      \<not> errors_Is err io_EOF \<Longrightarrow> err = None \<or> errors_Is err io_ErrUnexpectedEOF \<Longrightarrow>
      decryptDEK L ctx (CipherDEK info) network (RoundNumber (MetaData info))
         \<lparr>world = world s, calls = calls s @ [Call_Decode info err]\<rparr> = (Inr plainDEK, s2) \<Longrightarrow>
      decrypter plainDEK (CipherData info) (world s2) = (Inl e, w3) \<Longrightarrow>
      P (Suc n) False inp s (Returned (Some (Errorf ''decrypt data'' e))) inp1
        \<lparr>world = w3, calls = calls s2 @ [Call_Decrypt plainDEK (CipherData info)]\<rparr>"
    and write_error: "\<And>n inp s info err inp1 plainDEK s2 plainData w3 k e w4.
      decoder inp armor = ((info, err), inp1) \<Longrightarrow>
      \<not> errors_Is err io_EOF \<Longrightarrow> err = None \<or> errors_Is err io_ErrUnexpectedEOF \<Longrightarrow>
      decryptDEK L ctx (CipherDEK info) network (RoundNumber (MetaData info))
         \<lparr>world = world s, calls = calls s @ [Call_Decode info err]\<rparr> = (Inr plainDEK, s2) \<Longrightarrow>
      decrypter plainDEK (CipherData info) (world s2) = (Inr plainData, w3) \<Longrightarrow>
      out plainData w3 = ((k, Some e), w4) \<Longrightarrow>
      P (Suc n) False inp s (Returned (Some (Errorf ''write data'' e))) inp1
        \<lparr>world = w4, calls = calls s2 @ [Call_Decrypt plainDEK (CipherData info), Call_Write plainData]\<rparr>"
    and next_round: "\<And>n inp s info err inp1 plainDEK s2 plainData w3 k w4 res inp' s'.
      decoder inp armor = ((info, err), inp1) \<Longrightarrow>
      \<not> errors_Is err io_EOF \<Longrightarrow> err = None \<or> errors_Is err io_ErrUnexpectedEOF \<Longrightarrow>
      decryptDEK L ctx (CipherDEK info) network (RoundNumber (MetaData info))
         \<lparr>world = world s, calls = calls s @ [Call_Decode info err]\<rparr> = (Inr plainDEK, s2) \<Longrightarrow>
      decrypter plainDEK (CipherData info) (world s2) = (Inr plainData, w3) \<Longrightarrow>
      out plainData w3 = ((k, None), w4) \<Longrightarrow>
      Decrypt_loop n L ctx out decoder network decrypter armor (errors_Is err io_ErrUnexpectedEOF) inp1
         \<lparr>world = w4, calls = calls s2 @ [Call_Decrypt plainDEK (CipherData info), Call_Write plainData]\<rparr>
        = (res, inp', s') \<Longrightarrow>
      P n (errors_Is err io_ErrUnexpectedEOF) inp1
         \<lparr>world = w4, calls = calls s2 @ [Call_Decrypt plainDEK (CipherData info), Call_Write plainData]\<rparr>
         res inp' s' \<Longrightarrow>
      P (Suc n) False inp s res inp' s'"
  shows "P n done inp s res inp' s'"
  using run
proof (induction n arbitrary: "done" inp s res inp' s')
  case 0
  then show ?case using out_of_fuel by simp
next
  case (Suc n)
  show ?case
  proof (cases "done")
    case True
    with Suc.prems show ?thesis using finished by simp
  next
    case False
    with Suc.prems
    have run': "Decrypt_loop (Suc n) L ctx out decoder network decrypter armor False inp s = (res, inp', s')"
      by simp
    from run' show ?thesis
    proof (cases rule: Decrypt_loop_cases)
      case (eof info err inp1)
      with False show ?thesis using assms(4) by simp
    next
      case (decode_error info err inp1)
      with False show ?thesis using assms(5) by simp
    next
      case (dek_error info err inp1 e s2)
      with False show ?thesis using assms(6) by simp
    next
      case (cipher_error info err inp1 plainDEK s2 e w3)
      with False show ?thesis using assms(7) by simp
    next
      case (write_error info err inp1 plainDEK s2 plainData w3 k e w4)
      with False show ?thesis using assms(8) by simp
    next
      case (next_round info err inp1 plainDEK s2 plainData w3 k w4)
      from Suc.IH [OF next_round(7)] next_round False show ?thesis
        using assms(9) by simp
    qed
  qed
qed

section \<open>The verifier stands before \<open>ibe.Decrypt\<close>\<close>

lemma gated_append_any:
  "gated g xs \<Longrightarrow> (\<And>g'. gated g' ys) \<Longrightarrow> gated g (xs @ ys)"
  by (induction xs arbitrary: g) auto

lemma decryptDEK_gated:
  assumes "decryptDEK L ctx cipherDEK network (RoundNumber (MetaData info)) s = (res, s')"
  shows "\<exists>evs. calls s' = calls s @ evs \<and> gated (Some info, False) evs
           \<and> (\<forall>p \<in> set (verifier_calls evs). fst p = fixed_scheme \<and> PreviousSig (snd p) = [])
           \<and> written_bytes evs = []"
  using assms by (cases rule: decryptDEK_cases) auto

lemma Decrypt_loop_gated:
  assumes "Decrypt_loop n L ctx out decoder network decrypter armor done inp s = (res, inp', s')"
  shows "\<exists>evs. calls s' = calls s @ evs \<and> (\<forall>g. gated g evs)
           \<and> (\<forall>p \<in> set (verifier_calls evs). fst p = fixed_scheme \<and> PreviousSig (snd p) = [])"
  using assms
proof (induction rule: Decrypt_loop_induct)
  case (dek_error n inp s info err inp1 e s2)
  from decryptDEK_gated [OF dek_error(4)] obtain evs where
    "calls s2 = calls s @ Call_Decode info err # evs" "gated (Some info, False) evs"
    "\<forall>p \<in> set (verifier_calls evs). fst p = fixed_scheme \<and> PreviousSig (snd p) = []"
    by auto
  then show ?case
    by (intro exI [of _ "Call_Decode info err # evs"]) simp
next
  case (cipher_error n inp s info err inp1 plainDEK s2 e w3)
  from decryptDEK_gated [OF cipher_error(4)] obtain evs where evs:
    "calls s2 = calls s @ Call_Decode info err # evs" "gated (Some info, False) evs"
    "\<forall>p \<in> set (verifier_calls evs). fst p = fixed_scheme \<and> PreviousSig (snd p) = []"
    by auto
  have "gated (Some info, False) (evs @ [Call_Decrypt plainDEK (CipherData info)])"
    using evs(2) by (rule gated_append_any) simp
  moreover have "verifier_calls (evs @ [Call_Decrypt plainDEK (CipherData info)]) = verifier_calls evs"
    by (induction evs rule: verifier_calls.induct) simp_all
  ultimately show ?case using evs(1,3)
    by (intro exI [of _ "Call_Decode info err # evs @ [Call_Decrypt plainDEK (CipherData info)]"]) simp
next
  case (write_error n inp s info err inp1 plainDEK s2 plainData w3 k e w4)
  from decryptDEK_gated [OF write_error(4)] obtain evs where evs:
    "calls s2 = calls s @ Call_Decode info err # evs" "gated (Some info, False) evs"
    "\<forall>p \<in> set (verifier_calls evs). fst p = fixed_scheme \<and> PreviousSig (snd p) = []"
    by auto
  let ?tail = "[Call_Decrypt plainDEK (CipherData info), Call_Write plainData]"
  have "gated (Some info, False) (evs @ ?tail)"
    using evs(2) by (rule gated_append_any) simp
  moreover have "verifier_calls (evs @ ?tail) = verifier_calls evs"
    by (induction evs rule: verifier_calls.induct) simp_all
  ultimately show ?case using evs(1,3)
    by (intro exI [of _ "Call_Decode info err # evs @ ?tail"]) simp
next
  case (next_round n inp s info err inp1 plainDEK s2 plainData w3 k w4 res inp' s')
  from decryptDEK_gated [OF next_round(4)] obtain evs where evs:
    "calls s2 = calls s @ Call_Decode info err # evs" "gated (Some info, False) evs"
    "\<forall>p \<in> set (verifier_calls evs). fst p = fixed_scheme \<and> PreviousSig (snd p) = []"
    by auto
  from next_round(8) obtain evs' where evs':
    "calls s' = calls s2 @ Call_Decrypt plainDEK (CipherData info) # Call_Write plainData # evs'"
    "\<And>g. gated g evs'"
    "\<forall>p \<in> set (verifier_calls evs'). fst p = fixed_scheme \<and> PreviousSig (snd p) = []"
    by auto
  let ?tail = "Call_Decrypt plainDEK (CipherData info) # Call_Write plainData # evs'"
  have "gated (Some info, False) (evs @ ?tail)"
    using evs(2) by (rule gated_append_any) (simp add: evs'(2))
  moreover have "verifier_calls (evs @ ?tail) = verifier_calls evs @ verifier_calls evs'"
    by (induction evs rule: verifier_calls.induct) simp_all
  ultimately show ?case using evs(1,3) evs'(1,3)
    by (intro exI [of _ "Call_Decode info err # evs @ ?tail"]) auto
qed auto

text \<open>
  C4. In the log of any run of \<open>Decrypt\<close>, finished or not, every call of
  \<open>ibe.Decrypt\<close> comes after the verifier has accepted a beacon for the round number
  of the frame decoded last, with no other answer of the verifier in between. And when
  the signature the network hands out for a processed frame's round is one the verifier
  rejects for that round (as it does a signature made for another round), with both
  points well-formed and the public key fetched, \<open>Decrypt\<close> returns the verifier's
  error wrapped as "verify beacon" and has not called \<open>ibe.Decrypt\<close>.
\<close>

theorem ibe_Decrypt_only_after_verification:
  "(Decrypt n L ctx out inp decoder network decrypter armor s = (res, inp', s')
      \<longrightarrow> gated (None, False) (new_calls s s'))
   \<and> (decoder inp armor = ((info, err), inp1) \<and> \<not> errors_Is err io_EOF
        \<and> (err = None \<or> errors_Is err io_ErrUnexpectedEOF)
        \<and> IsReadyToDecrypt network ctx (RoundNumber (MetaData info)) (world s) = ((sg, True), w1)
        \<and> G2_UnmarshalBinary L sg = Inr dekSignature
        \<and> G1_UnmarshalBinary L (KyberPoint (CipherDEK info)) = Inr dekKyberPoint
        \<and> PublicKey network ctx w1 = (Inr publicKey, w2)
        \<and> VerifyBeacon L fixed_scheme
             \<lparr>PreviousSig = [], Round = RoundNumber (MetaData info), Signature = sg\<rparr> publicKey = Some e
      \<longrightarrow> (\<exists>s2. Decrypt (Suc m) L ctx out inp decoder network decrypter armor s =
                  (Returned (Some (Errorf ''decrypt dek'' (Errorf ''verify beacon'' e))), inp1, s2)
               \<and> filter is_ibe_Decrypt (new_calls s s2) = []))"
proof (intro conjI impI)
  assume "Decrypt n L ctx out inp decoder network decrypter armor s = (res, inp', s')"
  then have "Decrypt_loop n L ctx out decoder network decrypter armor False inp s = (res, inp', s')"
    by (simp add: Decrypt_def)
  from Decrypt_loop_gated [OF this] obtain evs where "calls s' = calls s @ evs" "\<forall>g. gated g evs"
    by auto
  then show "gated (None, False) (new_calls s s')"
    by (simp add: new_calls_append)
next
  assume "decoder inp armor = ((info, err), inp1) \<and> \<not> errors_Is err io_EOF
        \<and> (err = None \<or> errors_Is err io_ErrUnexpectedEOF)
        \<and> IsReadyToDecrypt network ctx (RoundNumber (MetaData info)) (world s) = ((sg, True), w1)
        \<and> G2_UnmarshalBinary L sg = Inr dekSignature
        \<and> G1_UnmarshalBinary L (KyberPoint (CipherDEK info)) = Inr dekKyberPoint
        \<and> PublicKey network ctx w1 = (Inr publicKey, w2)
        \<and> VerifyBeacon L fixed_scheme
             \<lparr>PreviousSig = [], Round = RoundNumber (MetaData info), Signature = sg\<rparr> publicKey = Some e"
  then show "\<exists>s2. Decrypt (Suc m) L ctx out inp decoder network decrypter armor s =
                  (Returned (Some (Errorf ''decrypt dek'' (Errorf ''verify beacon'' e))), inp1, s2)
               \<and> filter is_ibe_Decrypt (new_calls s s2) = []"
    by (auto simp: Decrypt_def decryptDEK_def call_def note_call_def Let_def new_calls_def
          fixed_scheme_def errors_Is_def)
qed

theorem ibe_Decrypt_only_after_verification_witness:
  "Decrypt (Suc (Suc 0)) test_library background test_writer [frame_for_round_5] test_decoder
       test_network test_decrypter False test_state =
     (Returned None, [],
      \<lparr>world = \<lparr>latest_round = 10, stream = [], sink = hello\<rparr>,
       calls = [Call_Decode frame_for_round_5 None, Call_IsReadyToDecrypt 5, Call_PublicKey,
                Call_VerifyBeacon fixed_scheme \<lparr>PreviousSig = [], Round = 5, Signature = RoundToBytes 5\<rparr> True,
                Call_ibe_Decrypt (RoundToBytes 5) (CipherDEK frame_for_round_5),
                Call_Decrypt (replicate 32 7) (CipherData frame_for_round_5),
                Call_Write hello,
                Call_Decode empty_CipherInfo (Some io_EOF)]\<rparr>)
   \<and> gated (None, False)
        [Call_Decode frame_for_round_5 None, Call_IsReadyToDecrypt 5, Call_PublicKey,
         Call_VerifyBeacon fixed_scheme \<lparr>PreviousSig = [], Round = 5, Signature = RoundToBytes 5\<rparr> True,
         Call_ibe_Decrypt (RoundToBytes 5) (CipherDEK frame_for_round_5),
         Call_Decrypt (replicate 32 7) (CipherData frame_for_round_5),
         Call_Write hello,
         Call_Decode empty_CipherInfo (Some io_EOF)]
   \<and> fst (Decrypt (Suc 0) test_library background test_writer [frame_for_round_5] test_decoder
          wrong_round_network test_decrypter False test_state) =
       Returned (Some (Errorf ''decrypt dek'' (Errorf ''verify beacon'' (Failure ''invalid signature''))))
   \<and> VerifyBeacon test_library fixed_scheme
        \<lparr>PreviousSig = [], Round = 5, Signature = RoundToBytes (5 + 1)\<rparr> [1, 2, 3]
       = Some (Failure ''invalid signature'')"
proof -
  let ?s' = "\<lparr>world = \<lparr>latest_round = 10, stream = [], sink = hello\<rparr>,
       calls = [Call_Decode frame_for_round_5 None, Call_IsReadyToDecrypt 5, Call_PublicKey,
                Call_VerifyBeacon fixed_scheme \<lparr>PreviousSig = [], Round = 5, Signature = RoundToBytes 5\<rparr> True,
                Call_ibe_Decrypt (RoundToBytes 5) (CipherDEK frame_for_round_5),
                Call_Decrypt (replicate 32 7) (CipherData frame_for_round_5),
                Call_Write hello,
                Call_Decode empty_CipherInfo (Some io_EOF)]\<rparr>"
  have run: "Decrypt (Suc (Suc 0)) test_library background test_writer [frame_for_round_5] test_decoder
       test_network test_decrypter False test_state = (Returned None, [], ?s')"
    by (simp add: Decrypt_def decryptDEK_def call_def note_call_def Let_def test_doubles
          frame_for_round_5_def errors_Is_def fixed_scheme_def)
  have rej: "VerifyBeacon test_library fixed_scheme
        \<lparr>PreviousSig = [], Round = 5, Signature = RoundToBytes (5 + 1)\<rparr> [1, 2, 3]
       = Some (Failure ''invalid signature'')"
    by (simp add: test_library_def RoundToBytes_def BigEndian_PutUint64_def)
  have hyp: "test_decoder [frame_for_round_5] False = ((frame_for_round_5, None), [])
      \<and> \<not> errors_Is None io_EOF \<and> (None = None \<or> errors_Is None io_ErrUnexpectedEOF)
      \<and> IsReadyToDecrypt wrong_round_network background (RoundNumber (MetaData frame_for_round_5))
           (world test_state) = ((RoundToBytes (5 + 1), True), world test_state)
      \<and> G2_UnmarshalBinary test_library (RoundToBytes (5 + 1)) = Inr (RoundToBytes (5 + 1))
      \<and> G1_UnmarshalBinary test_library (KyberPoint (CipherDEK frame_for_round_5)) = Inr [1, 2, 3]
      \<and> PublicKey wrong_round_network background (world test_state) = (Inr [1, 2, 3], world test_state)
      \<and> VerifyBeacon test_library fixed_scheme
           \<lparr>PreviousSig = [], Round = RoundNumber (MetaData frame_for_round_5),
            Signature = RoundToBytes (5 + 1)\<rparr> [1, 2, 3] = Some (Failure ''invalid signature'')"
    using rej
    by (simp add: wrong_round_network_def test_doubles frame_for_round_5_def errors_Is_def)
  note first = ibe_Decrypt_only_after_verification
    [where n = "Suc (Suc 0)" and L = test_library and ctx = background and out = test_writer
       and inp = "[frame_for_round_5]" and decoder = test_decoder and network = test_network
       and decrypter = test_decrypter and armor = False and s = test_state
       and res = "Returned None" and inp' = "[]" and s' = ?s', THEN conjunct1]
  note second = ibe_Decrypt_only_after_verification
    [where L = test_library and ctx = background and out = test_writer
       and inp = "[frame_for_round_5]" and decoder = test_decoder and network = wrong_round_network
       and decrypter = test_decrypter and armor = False and s = test_state
       and info = frame_for_round_5 and err = None and ?inp1.0 = "[]"
       and sg = "RoundToBytes (5 + 1)" and ?w1.0 = "world test_state"
       and dekSignature = "RoundToBytes (5 + 1)" and dekKyberPoint = "[1, 2, 3]"
       and publicKey = "[1, 2, 3]" and ?w2.0 = "world test_state"
       and e = "Failure ''invalid signature''" and m = 0, THEN conjunct2]
  show ?thesis
    using run rej hyp first second
    by (auto simp: new_calls_def test_state_def)
qed

section \<open>The scheme of the verifier\<close>

text \<open>
  C7. In the log of any run of \<open>Decrypt\<close>, finished or not, on any input and with
  any network, every call of the beacon verifier is made with the scheme
  \<open>{ID: "pedersen-bls-unchained", DecouplePrevSig: true}\<close> and a beacon whose
  \<open>PreviousSig\<close> is empty: the verifier is never given a previous signature, and
  nothing the network returns changes the scheme.
\<close>

theorem Decrypt_verifies_with_fixed_scheme:
  assumes "Decrypt n L ctx out inp decoder network decrypter armor s = (res, inp', s')"
  shows "\<forall>p \<in> set (verifier_calls (new_calls s s')).
           fst p = \<lparr>ID = ''pedersen-bls-unchained'', DecouplePrevSig = True\<rparr> \<and> PreviousSig (snd p) = []"
proof -
  from assms
  have "Decrypt_loop n L ctx out decoder network decrypter armor False inp s = (res, inp', s')"
    by (simp add: Decrypt_def)
  from Decrypt_loop_gated [OF this] obtain evs where "calls s' = calls s @ evs"
    "\<forall>p \<in> set (verifier_calls evs). fst p = fixed_scheme \<and> PreviousSig (snd p) = []"
    by auto
  then show ?thesis
    by (simp add: new_calls_append fixed_scheme_def UnchainedSchemeID_def)
qed

theorem Decrypt_verifies_with_fixed_scheme_witness:
  "verifier_calls (new_calls test_state (snd (snd
      (Decrypt (Suc (Suc 0)) test_library background test_writer [frame_for_round_5] test_decoder
         test_network test_decrypter False test_state)))) =
     [(\<lparr>ID = ''pedersen-bls-unchained'', DecouplePrevSig = True\<rparr>,
       \<lparr>PreviousSig = [], Round = 5, Signature = RoundToBytes 5\<rparr>)]"
proof -
  let ?run = "Decrypt (Suc (Suc 0)) test_library background test_writer [frame_for_round_5] test_decoder
         test_network test_decrypter False test_state"
  have calls: "verifier_calls (new_calls test_state (snd (snd ?run))) =
     [(fixed_scheme, \<lparr>PreviousSig = [], Round = 5, Signature = RoundToBytes 5\<rparr>)]"
    by (simp add: Decrypt_def decryptDEK_def call_def note_call_def Let_def test_doubles
          frame_for_round_5_def errors_Is_def fixed_scheme_def new_calls_def)
  have "?run = (fst ?run, fst (snd ?run), snd (snd ?run))"
    by simp
  from Decrypt_verifies_with_fixed_scheme [OF this] calls show ?thesis
    by simp
qed

section \<open>The three outcomes of a decode\<close>

text \<open>
  C8. In a round of the loop of \<open>Decrypt\<close>:
  when the decoder returns a frame with an error that matches \<open>io.ErrUnexpectedEOF\<close>
  (and not \<open>io.EOF\<close>), and the network is ready, both points decode, the public key
  is fetched, the verifier accepts, \<open>ibe.Decrypt\<close>, the cipher and \<open>Write\<close>
  succeed, then \<open>Decrypt\<close> makes exactly these calls for the frame, in this order,
  writes the frame's plaintext, calls the decoder no more and returns \<open>nil\<close>;
  when the error matches \<open>io.EOF\<close>, it returns \<open>nil\<close> after the \<open>Decode\<close> alone;
  on any other error it returns that error wrapped as "decoding input data" after the
  \<open>Decode\<close> alone.
\<close>

theorem Decrypt_decode_outcomes:
  "(decoder inp armor = ((info, err), inp1)
      \<and> errors_Is err io_ErrUnexpectedEOF \<and> \<not> errors_Is err io_EOF
      \<and> IsReadyToDecrypt network ctx (RoundNumber (MetaData info)) (world s) = ((sg, True), w1)
      \<and> G2_UnmarshalBinary L sg = Inr dekSignature
      \<and> G1_UnmarshalBinary L (KyberPoint (CipherDEK info)) = Inr dekKyberPoint
      \<and> PublicKey network ctx w1 = (Inr publicKey, w2)
      \<and> VerifyBeacon L fixed_scheme
           \<lparr>PreviousSig = [], Round = RoundNumber (MetaData info), Signature = sg\<rparr> publicKey = None
      \<and> ibe_Decrypt L publicKey dekSignature
           \<lparr>ct_U = dekKyberPoint, ct_V = CipherV (CipherDEK info), ct_W = CipherW (CipherDEK info)\<rparr>
           = Inr plainDEK
      \<and> decrypter plainDEK (CipherData info) w2 = (Inr plainData, w3)
      \<and> out plainData w3 = ((k, None), w4)
    \<longrightarrow> Decrypt (Suc (Suc n)) L ctx out inp decoder network decrypter armor s =
          (Returned None, inp1,
           \<lparr>world = w4,
            calls = calls s @
              [Call_Decode info err,
               Call_IsReadyToDecrypt (RoundNumber (MetaData info)),
               Call_PublicKey,
               Call_VerifyBeacon fixed_scheme
                 \<lparr>PreviousSig = [], Round = RoundNumber (MetaData info), Signature = sg\<rparr> True,
               Call_ibe_Decrypt sg (CipherDEK info),
               Call_Decrypt plainDEK (CipherData info),
               Call_Write plainData]\<rparr>))
   \<and> (decoder inp armor = ((info, err), inp1) \<and> errors_Is err io_EOF
    \<longrightarrow> Decrypt (Suc n) L ctx out inp decoder network decrypter armor s =
          (Returned None, inp1, \<lparr>world = world s, calls = calls s @ [Call_Decode info err]\<rparr>))
   \<and> (decoder inp armor = ((info, err), inp1) \<and> err \<noteq> None
      \<and> \<not> errors_Is err io_EOF \<and> \<not> errors_Is err io_ErrUnexpectedEOF
    \<longrightarrow> Decrypt (Suc n) L ctx out inp decoder network decrypter armor s =
          (Returned (map_option (Errorf ''decoding input data'') err), inp1,
           \<lparr>world = world s, calls = calls s @ [Call_Decode info err]\<rparr>))"
  by (auto simp: Decrypt_def decryptDEK_def call_def note_call_def Let_def fixed_scheme_def)

theorem Decrypt_decode_outcomes_witness:
  "Decrypt (Suc (Suc 0)) test_library background test_writer [frame_for_round_5] last_frame_decoder
       test_network test_decrypter False test_state =
     (Returned None, [],
      \<lparr>world = \<lparr>latest_round = 10, stream = [], sink = hello\<rparr>,
       calls = [Call_Decode frame_for_round_5 (Some io_ErrUnexpectedEOF), Call_IsReadyToDecrypt 5,
                Call_PublicKey,
                Call_VerifyBeacon fixed_scheme \<lparr>PreviousSig = [], Round = 5, Signature = RoundToBytes 5\<rparr> True,
                Call_ibe_Decrypt (RoundToBytes 5) (CipherDEK frame_for_round_5),
                Call_Decrypt (replicate 32 7) (CipherData frame_for_round_5),
                Call_Write hello]\<rparr>)
   \<and> Decrypt (Suc 0) test_library background test_writer [] last_frame_decoder
       test_network test_decrypter False test_state =
     (Returned None, [],
      \<lparr>world = world test_state, calls = [Call_Decode empty_CipherInfo (Some io_EOF)]\<rparr>)
   \<and> Decrypt (Suc 0) test_library background test_writer (0::nat)
       (\<lambda>i a. ((empty_CipherInfo, Some (Failure ''malformed frame'')), i))
       test_network test_decrypter False test_state =
     (Returned (Some (Errorf ''decoding input data'' (Failure ''malformed frame''))), 0,
      \<lparr>world = world test_state,
       calls = [Call_Decode empty_CipherInfo (Some (Failure ''malformed frame''))]\<rparr>)"
proof -
  note truncated = Decrypt_decode_outcomes
    [where decoder = last_frame_decoder and inp = "[frame_for_round_5]" and armor = False
       and info = frame_for_round_5 and err = "Some io_ErrUnexpectedEOF" and ?inp1.0 = "[]"
       and network = test_network and ctx = background and s = test_state
       and sg = "RoundToBytes 5" and ?w1.0 = "world test_state" and L = test_library
       and dekSignature = "RoundToBytes 5" and dekKyberPoint = "[1, 2, 3]"
       and publicKey = "[1, 2, 3]" and ?w2.0 = "world test_state"
       and plainDEK = "replicate 32 7" and decrypter = test_decrypter and plainData = hello
       and ?w3.0 = "world test_state" and out = test_writer and k = 5
       and ?w4.0 = "\<lparr>latest_round = 10, stream = [], sink = hello\<rparr>" and n = 0,
     THEN conjunct1]
  note ended = Decrypt_decode_outcomes
    [where decoder = last_frame_decoder and inp = "[]" and armor = False
       and info = empty_CipherInfo and err = "Some io_EOF" and ?inp1.0 = "[]"
       and network = test_network and ctx = background and s = test_state
       and L = test_library and decrypter = test_decrypter and out = test_writer and n = 0,
     THEN conjunct2, THEN conjunct1]
  note malformed = Decrypt_decode_outcomes
    [where decoder = "\<lambda>i a. ((empty_CipherInfo, Some (Failure ''malformed frame'')), i)"
       and inp = "0::nat" and armor = False
       and info = empty_CipherInfo and err = "Some (Failure ''malformed frame'')" and ?inp1.0 = "0::nat"
       and network = test_network and ctx = background and s = test_state
       and L = test_library and decrypter = test_decrypter and out = test_writer and n = 0,
     THEN conjunct2, THEN conjunct2]
  show ?thesis
    using truncated ended malformed
    by (simp add: test_doubles frame_for_round_5_def hello_def errors_Is_def fixed_scheme_def
          RoundToBytes_def BigEndian_PutUint64_def)
qed

section \<open>A cancelled context\<close>

text \<open>
  C9, refuted as stated. \<open>IsReadyToDecrypt\<close> returns \<open>(id, ready)\<close> and no error,
  so a network whose beacon fetch fails on a cancelled context can only answer
  \<open>ready = false\<close>. \<open>Decrypt\<close> then returns \<open>ErrTooEarly\<close> (wrapped as
  "decrypt dek"), an error that does not match \<open>context.Canceled\<close>.
\<close>

theorem Decrypt_cancelled_is_too_early_counterexample:
  "ctx_Err cancelled = Some context_Canceled
   \<and> IsReadyToDecrypt test_network cancelled 5 (world test_state) = (([], False), world test_state)
   \<and> fst (Decrypt (Suc 0) test_library cancelled test_writer [frame_for_round_5] test_decoder
          test_network test_decrypter False test_state) =
       Returned (Some (Errorf ''decrypt dek'' ErrTooEarly))
   \<and> errors_Is (Some (Errorf ''decrypt dek'' ErrTooEarly)) ErrTooEarly
   \<and> \<not> errors_Is (Some (Errorf ''decrypt dek'' ErrTooEarly)) context_Canceled"
  by (simp add: Decrypt_def decryptDEK_def call_def note_call_def Let_def test_doubles
        frame_for_round_5_def errors_Is_def)

text \<open>
  C9, amended. The network calls that have an error result are \<open>PublicKey\<close> (in
  \<open>encrypt\<close> and in \<open>decryptDEK\<close>) and \<open>EncryptionRoundAndID\<close>. When one of them
  fails with an error \<open>e\<close>, the session returns \<open>e\<close> wrapped ("public key", "round
  by duration", and under "decrypt dek" in \<open>Decrypt\<close>), the failed call is the last
  call of the session, and no frame is encoded by \<open>encrypt\<close>; so when \<open>e\<close> is or wraps
  \<open>context.Canceled\<close> the returned error matches \<open>context.Canceled\<close> and does not
  match \<open>ErrTooEarly\<close>. \<open>IsReadyToDecrypt\<close> has no error result: whenever it answers
  \<open>ready = false\<close>, for whatever reason, \<open>Decrypt\<close> returns \<open>ErrTooEarly\<close> wrapped
  as "decrypt dek", which does not match \<open>context.Canceled\<close>.
\<close>

lemma error_chain_one_sentinel:
  "error_chain_has e context_Canceled \<Longrightarrow> \<not> error_chain_has e ErrTooEarly"
  by (induction e) auto

theorem network_failures_are_returned_wrapped:
  "(rand_Read L fileKeySize (world s) = (Inr delivered, w1) \<and> PublicKey network ctx w1 = (Inl e, w2)
      \<longrightarrow> encrypt L ctx out rd encoder network encrypter R ident armor s =
            (Some (Errorf ''public key'' e), rd,
             \<lparr>world = w2, calls = calls s @ [Call_rand_Read fileKeySize, Call_PublicKey]\<rparr>))
   \<and> (EncryptionRoundAndID network ctx duration (world s) = (Inl e, w1)
      \<longrightarrow> EncryptWithDuration L ctx out rd encoder network encrypter duration armor s =
            (Some (Errorf ''round by duration'' e), rd,
             \<lparr>world = w1, calls = calls s @ [Call_EncryptionRoundAndID duration]\<rparr>))
   \<and> (decoder inp armor = ((info, err), inp1) \<and> \<not> errors_Is err io_EOF
        \<and> (err = None \<or> errors_Is err io_ErrUnexpectedEOF)
        \<and> IsReadyToDecrypt network ctx (RoundNumber (MetaData info)) (world s) = ((sg, True), w1)
        \<and> G2_UnmarshalBinary L sg = Inr dekSignature
        \<and> G1_UnmarshalBinary L (KyberPoint (CipherDEK info)) = Inr dekKyberPoint
        \<and> PublicKey network ctx w1 = (Inl e, w2)
      \<longrightarrow> Decrypt (Suc n) L ctx out' inp decoder network decrypter armor s =
            (Returned (Some (Errorf ''decrypt dek'' (Errorf ''public key'' e))), inp1,
             \<lparr>world = w2,
              calls = calls s @ [Call_Decode info err,
                Call_IsReadyToDecrypt (RoundNumber (MetaData info)), Call_PublicKey]\<rparr>))
   \<and> (error_chain_has e context_Canceled
      \<longrightarrow> errors_Is (Some (Errorf ''public key'' e)) context_Canceled
        \<and> errors_Is (Some (Errorf ''round by duration'' e)) context_Canceled
        \<and> errors_Is (Some (Errorf ''decrypt dek'' (Errorf ''public key'' e))) context_Canceled
        \<and> \<not> errors_Is (Some (Errorf ''public key'' e)) ErrTooEarly
        \<and> \<not> errors_Is (Some (Errorf ''round by duration'' e)) ErrTooEarly
        \<and> \<not> errors_Is (Some (Errorf ''decrypt dek'' (Errorf ''public key'' e))) ErrTooEarly)
   \<and> (decoder inp armor = ((info, err), inp1) \<and> \<not> errors_Is err io_EOF
        \<and> (err = None \<or> errors_Is err io_ErrUnexpectedEOF)
        \<and> IsReadyToDecrypt network ctx (RoundNumber (MetaData info)) (world s) = ((sg, False), w1)
      \<longrightarrow> Decrypt (Suc n) L ctx out' inp decoder network decrypter armor s =
            (Returned (Some (Errorf ''decrypt dek'' ErrTooEarly)), inp1,
             \<lparr>world = w1,
              calls = calls s @ [Call_Decode info err,
                Call_IsReadyToDecrypt (RoundNumber (MetaData info))]\<rparr>)
        \<and> \<not> errors_Is (Some (Errorf ''decrypt dek'' ErrTooEarly)) context_Canceled)"
  by (auto simp: encrypt_def EncryptWithDuration_def Decrypt_def decryptDEK_def call_def
        note_call_def Let_def errors_Is_def dest: error_chain_one_sentinel)

theorem network_failures_are_returned_wrapped_witness:
  "encrypt test_library cancelled test_writer (bytes_Reader hello) test_encoder test_network
       test_encrypter 5 [] False test_state =
     (Some (Errorf ''public key'' context_Canceled), bytes_Reader hello,
      \<lparr>world = world test_state, calls = [Call_rand_Read fileKeySize, Call_PublicKey]\<rparr>)
   \<and> EncryptWithDuration test_library cancelled test_writer (bytes_Reader hello) test_encoder test_network
       test_encrypter 3 False test_state =
     (Some (Errorf ''round by duration'' context_Canceled), bytes_Reader hello,
      \<lparr>world = world test_state, calls = [Call_EncryptionRoundAndID 3]\<rparr>)
   \<and> Decrypt (Suc 0) test_library background test_writer [frame_for_round_5] test_decoder
       (test_network\<lparr>PublicKey := (\<lambda>ctx w. (Inl context_Canceled, w))\<rparr>) test_decrypter False test_state =
     (Returned (Some (Errorf ''decrypt dek'' (Errorf ''public key'' context_Canceled))), [],
      \<lparr>world = world test_state,
       calls = [Call_Decode frame_for_round_5 None, Call_IsReadyToDecrypt 5, Call_PublicKey]\<rparr>)
   \<and> errors_Is (Some (Errorf ''decrypt dek'' (Errorf ''public key'' context_Canceled))) context_Canceled
   \<and> Decrypt (Suc 0) test_library cancelled test_writer [frame_for_round_5] test_decoder
       test_network test_decrypter False test_state =
     (Returned (Some (Errorf ''decrypt dek'' ErrTooEarly)), [],
      \<lparr>world = world test_state,
       calls = [Call_Decode frame_for_round_5 None, Call_IsReadyToDecrypt 5]\<rparr>)"
proof -
  note a = network_failures_are_returned_wrapped
    [where L = test_library and s = test_state and delivered = "replicate 32 7"
       and ?w1.0 = "world test_state" and network = test_network and ctx = cancelled
       and e = context_Canceled and ?w2.0 = "world test_state" and out = test_writer
       and rd = "bytes_Reader hello" and encoder = test_encoder and encrypter = test_encrypter
       and R = 5 and ident = "[]" and armor = False, THEN conjunct1]
  note b = network_failures_are_returned_wrapped
    [where L = test_library and s = test_state
       and ?w1.0 = "world test_state" and network = test_network and ctx = cancelled
       and e = context_Canceled and out = test_writer and duration = 3
       and rd = "bytes_Reader hello" and encoder = test_encoder and encrypter = test_encrypter
       and armor = False, THEN conjunct2, THEN conjunct1]
  note c = network_failures_are_returned_wrapped
    [where L = test_library and s = test_state and decoder = test_decoder
       and inp = "[frame_for_round_5]" and armor = False and info = frame_for_round_5
       and err = None and ?inp1.0 = "[]"
       and network = "test_network\<lparr>PublicKey := (\<lambda>ctx w. (Inl context_Canceled, w))\<rparr>"
       and ctx = background and sg = "RoundToBytes 5" and ?w1.0 = "world test_state"
       and dekSignature = "RoundToBytes 5" and dekKyberPoint = "[1, 2, 3]"
       and e = context_Canceled and ?w2.0 = "world test_state" and out' = test_writer
       and decrypter = test_decrypter and n = 0, THEN conjunct2, THEN conjunct2, THEN conjunct1]
  note d = network_failures_are_returned_wrapped
    [where e = context_Canceled, THEN conjunct2, THEN conjunct2, THEN conjunct2, THEN conjunct1]
  note f = network_failures_are_returned_wrapped
    [where L = test_library and s = test_state and decoder = test_decoder
       and inp = "[frame_for_round_5]" and armor = False and info = frame_for_round_5
       and err = None and ?inp1.0 = "[]" and network = test_network
       and ctx = cancelled and sg = "[]" and ?w1.0 = "world test_state" and out' = test_writer
       and decrypter = test_decrypter and n = 0,
     THEN conjunct2, THEN conjunct2, THEN conjunct2, THEN conjunct2]
  show ?thesis
    using a b c d f
    by (simp add: test_doubles frame_for_round_5_def errors_Is_def fileKeySize_def)
qed

section \<open>Collaborators that never fail\<close>

text \<open>
  The runs the statements above start from exist for every plaintext: when the entropy
  source, the public key fetch, \<open>ibe.Encrypt\<close>, the point encoding, the cipher and
  the encoder succeed in every state of the world, \<open>encrypt\<close> returns \<open>nil\<close> on
  every input that ends with \<open>io.EOF\<close>.
\<close>

lemma encrypt_loop_returns_nil:
  assumes run: "encrypt_loop out encoder encrypter dek ci armor done inp s = (r, inp', s')"
    and cipher: "\<And>key p w. \<exists>c w'. encrypter key p w = (Inr c, w')"
    and codec: "\<And>f a w. \<exists>w'. encoder out f a w = (None, w')"
  shows "final inp = io_EOF \<longrightarrow> r = None"
  using run
proof (induction rule: encrypt_loop_induct)
  case (read_error ci inp s data err inp1)
  then show ?case
    by (auto simp: ReadFull_def errors_Is_def split: if_splits)
next
  case (cipher_error ci inp s data err inp1 e w2)
  with cipher [of dek data "world s"] show ?case by auto
next
  case (encode_error ci inp s data err inp1 c w2 e w3)
  with codec [of "ci\<lparr>CipherData := c\<rparr>" armor w2] show ?case by auto
next
  case (next_round ci inp s data err inp1 c w2 w3 r inp' s')
  have "final inp1 = final inp"
    using next_round(1) ReadFull_final [of inp chunkSize] by simp
  with next_round(7) show ?case by simp
qed simp_all

lemma encrypt_returns_nil:
  assumes entropy: "\<And>w. \<exists>d w'. rand_Read L fileKeySize w = (Inr d, w')"
    and key: "\<And>w. \<exists>pk w'. PublicKey network ctx w = (Inr pk, w')"
    and wrap: "\<And>pk dek w. \<exists>ct w'. ibe_Encrypt L pk ident dek w = (Inr ct, w')"
    and point: "\<And>u. \<exists>b. G1_MarshalBinary L u = Inr b"
    and cipher: "\<And>key p w. \<exists>c w'. encrypter key p w = (Inr c, w')"
    and codec: "\<And>f a w. \<exists>w'. encoder out f a w = (None, w')"
  shows "fst (encrypt L ctx out (bytes_Reader P) encoder network encrypter R ident armor s) = None"
proof -
  obtain r inp' s' where run:
    "encrypt L ctx out (bytes_Reader P) encoder network encrypter R ident armor s = (r, inp', s')"
    by (cases "encrypt L ctx out (bytes_Reader P) encoder network encrypter R ident armor s") auto
  from run have "r = None"
  proof (cases rule: encrypt_cases)
    case (random_error e w1)
    with entropy [of "world s"] show ?thesis by auto
  next
    case (public_key_error delivered w1 e w2)
    with key [of w1] show ?thesis by auto
  next
    case (ibe_error delivered w1 publicKey w2 e w3)
    with wrap [of publicKey "go_copy (replicate fileKeySize 0) delivered" w2] show ?thesis by auto
  next
    case (marshal_error delivered w1 publicKey w2 cipherText w3 e)
    with point [of "ct_U cipherText"] show ?thesis by auto
  next
    case (chunk_loop delivered w1 publicKey w2 cipherText w3 kyberPoint)
    from encrypt_loop_returns_nil [OF chunk_loop(5) cipher codec] show ?thesis
      by (simp add: bytes_Reader_def)
  qed
  with run show ?thesis by simp
qed

section \<open>Round trip\<close>

lemma written_bytes_append: "written_bytes (xs @ ys) = written_bytes xs @ written_bytes ys"
  by (induction xs rule: written_bytes.induct) simp_all

lemma encoded_frames_append: "encoded_frames (xs @ ys) = encoded_frames xs @ encoded_frames ys"
  by (induction xs rule: encoded_frames.induct) simp_all

lemma decryptDEK_unwraps:
  assumes "IsReadyToDecrypt network ctx R (world s) = ((sg, True), w1)"
    and "PublicKey network ctx w1 = (Inr pk, w2)"
    and "G2_UnmarshalBinary L sg = Inr sig"
    and "G1_UnmarshalBinary L (KyberPoint cd) = Inr u"
    and "VerifyBeacon L fixed_scheme \<lparr>PreviousSig = [], Round = R, Signature = sg\<rparr> pk = None"
    and "ibe_Decrypt L pk sig \<lparr>ct_U = u, ct_V = CipherV cd, ct_W = CipherW cd\<rparr> = Inr dek"
  shows "decryptDEK L ctx cd network R s =
           (Inr dek, \<lparr>world = w2, calls = calls s @ [Call_IsReadyToDecrypt R, Call_PublicKey,
              Call_VerifyBeacon fixed_scheme \<lparr>PreviousSig = [], Round = R, Signature = sg\<rparr> True,
              Call_ibe_Decrypt sg cd]\<rparr>)"
  using assms
  by (simp add: decryptDEK_def call_def note_call_def Let_def fixed_scheme_def)

lemma Decrypt_loop_frames:
  assumes ready: "\<And>w. I w \<Longrightarrow> \<exists>w'. IsReadyToDecrypt network ctx R w = ((sg, True), w') \<and> I w'"
    and key: "\<And>w. I w \<Longrightarrow> \<exists>w'. PublicKey network ctx w = (Inr pk, w') \<and> I w'"
    and sink: "\<And>p w. I w \<Longrightarrow> \<exists>k w'. out p w = ((k, None), w') \<and> I w'"
    and g2: "G2_UnmarshalBinary L sg = Inr sig"
    and g1: "G1_UnmarshalBinary L (KyberPoint cd) = Inr u"
    and ver: "VerifyBeacon L fixed_scheme \<lparr>PreviousSig = [], Round = R, Signature = sg\<rparr> pk = None"
    and unwrap: "ibe_Decrypt L pk sig \<lparr>ct_U = u, ct_V = CipherV cd, ct_W = CipherW cd\<rparr> = Inr dek"
  shows "list_all2 (\<lambda>f c. RoundNumber (MetaData f) = R \<and> CipherDEK f = cd
            \<and> (\<forall>w. I w \<longrightarrow> (\<exists>w'. decrypter dek (CipherData f) w = (Inr c, w') \<and> I w'))) fs cs
      \<Longrightarrow> decodes_to decoder armor inp fs \<Longrightarrow> I (world s)
      \<Longrightarrow> \<exists>inp' s' evs.
            Decrypt_loop (Suc (length fs + m)) L ctx out decoder network decrypter armor False inp s
              = (Returned None, inp', s')
          \<and> calls s' = calls s @ evs \<and> written_bytes evs = concat cs"
proof (induction fs arbitrary: cs inp s)
  case Nil
  then have cs: "cs = []" by simp
  obtain info err inp1 where d: "decoder inp armor = ((info, err), inp1)"
    by (cases "decoder inp armor") auto
  with Nil(2) have "errors_Is err io_EOF" by simp
  with d cs show ?case
    by (simp add: note_call_def)
next
  case (Cons f fs)
  from Cons.prems(1) obtain c cs' where cs: "cs = c # cs'"
    and f: "RoundNumber (MetaData f) = R" "CipherDEK f = cd"
      "\<And>w. I w \<Longrightarrow> \<exists>w'. decrypter dek (CipherData f) w = (Inr c, w') \<and> I w'"
    and rest: "list_all2 (\<lambda>f c. RoundNumber (MetaData f) = R \<and> CipherDEK f = cd
            \<and> (\<forall>w. I w \<longrightarrow> (\<exists>w'. decrypter dek (CipherData f) w = (Inr c, w') \<and> I w'))) fs cs'"
    by (auto simp: list_all2_Cons1)
  obtain info err inp1 where d: "decoder inp armor = ((info, err), inp1)"
    by (cases "decoder inp armor") auto
  with Cons.prems(2) have d': "info = f" "err = None" "decodes_to decoder armor inp1 fs"
    by simp_all
  let ?s1 = "\<lparr>world = world s, calls = calls s @ [Call_Decode f None]\<rparr>"
  from ready [OF Cons.prems(3)] obtain w1 where
    w1: "IsReadyToDecrypt network ctx R (world ?s1) = ((sg, True), w1)" "I w1" by auto
  from key [OF w1(2)] obtain w2 where w2: "PublicKey network ctx w1 = (Inr pk, w2)" "I w2" by auto
  let ?s2 = "\<lparr>world = w2, calls = calls ?s1 @ [Call_IsReadyToDecrypt R, Call_PublicKey,
              Call_VerifyBeacon fixed_scheme \<lparr>PreviousSig = [], Round = R, Signature = sg\<rparr> True,
              Call_ibe_Decrypt sg cd]\<rparr>"
  have dk: "decryptDEK L ctx cd network R ?s1 = (Inr dek, ?s2)"
    by (rule decryptDEK_unwraps [OF w1(1) w2(1) g2 g1 ver unwrap])
  from f(3) [OF w2(2)] obtain w3 where w3: "decrypter dek (CipherData f) w2 = (Inr c, w3)" "I w3" by auto
  from sink [where p = c, OF w3(2)] obtain k w4 where w4: "out c w3 = ((k, None), w4)" "I w4" by auto
  let ?s4 = "\<lparr>world = w4, calls = calls ?s2 @ [Call_Decrypt dek (CipherData f), Call_Write c]\<rparr>"
  have step: "Decrypt_loop (Suc (length (f # fs) + m)) L ctx out decoder network decrypter armor False inp s
      = Decrypt_loop (Suc (length fs + m)) L ctx out decoder network decrypter armor False inp1 ?s4"
    using d d' f(1,2) dk w3(1) w4(1)
    by (simp add: note_call_def call_def errors_Is_def del: Decrypt_loop.simps(2))
       (simp add: note_call_def call_def errors_Is_def Decrypt_loop.simps(2) [of "length fs + m"])
  from Cons.IH [OF rest d'(3), of ?s4] w4(2) obtain inp' s' evs where
    "Decrypt_loop (Suc (length fs + m)) L ctx out decoder network decrypter armor False inp1 ?s4
       = (Returned None, inp', s')"
    "calls s' = calls ?s4 @ evs" "written_bytes evs = concat cs'"
    by auto
  with step cs show ?case
    by (intro exI [of _ inp'] exI [of _ s']
          exI [of _ "[Call_Decode f None, Call_IsReadyToDecrypt R, Call_PublicKey,
              Call_VerifyBeacon fixed_scheme \<lparr>PreviousSig = [], Round = R, Signature = sg\<rparr> True,
              Call_ibe_Decrypt sg cd, Call_Decrypt dek (CipherData f), Call_Write c] @ evs"])
       (simp add: written_bytes_append)
qed

lemma CalculateEncryptionID_eq: "CalculateEncryptionID R = Inr (sha256 (RoundToBytes R))"
  by (simp add: CalculateEncryptionID_def sha256_New_def hash_Write_def hash_Sum_def)

lemma encrypt_session_frames:
  assumes "encrypt L ctx out (bytes_Reader P) encoder network encrypter R ident armor s0 = (None, rd, s1)"
  obtains delivered w1 publicKey w2 cipherText w3 kyberPoint where
    "PublicKey network ctx w1 = (Inr publicKey, w2)"
    "ibe_Encrypt L publicKey ident (go_copy (replicate fileKeySize 0) delivered) w2 = (Inr cipherText, w3)"
    "G1_MarshalBinary L (ct_U cipherText) = Inr kyberPoint"
    "list_all2 (\<lambda>f c. RoundNumber (MetaData f) = R
        \<and> CipherDEK f = \<lparr>KyberPoint = kyberPoint, CipherV = ct_V cipherText, CipherW = ct_W cipherText\<rparr>
        \<and> sealed_by encrypter (go_copy (replicate fileKeySize 0) delivered) f c)
      (encoded_frames (new_calls s0 s1)) (chunks 65536 P)"
  using assms
proof (cases rule: encrypt_cases)
  case (chunk_loop delivered w1 publicKey w2 cipherText w3 kyberPoint)
  let ?dek = "go_copy (replicate fileKeySize 0) delivered"
  let ?ci = "\<lparr>MetaData = \<lparr>RoundNumber = R, ChainHash = Network_ChainHash network w3\<rparr>,
          CipherDEK = \<lparr>KyberPoint = kyberPoint, CipherV = ct_V cipherText, CipherW = ct_W cipherText\<rparr>,
          CipherData = []\<rparr>"
  let ?pre = "[Call_rand_Read fileKeySize, Call_PublicKey, Call_ibe_Encrypt ident ?dek]"
  from encrypt_loop_events [OF chunk_loop(5)] obtain evs where evs:
    "calls s1 = calls s0 @ ?pre @ evs" "\<forall>e \<in> set evs. loop_event ?dek ?ci armor e"
    by auto
  from encrypt_loop_chunks [OF chunk_loop(5)] evs(1) have ch:
    "encrypted_chunks evs = chunks chunkSize P"
    by (auto simp: bytes_Reader_def)
  from encrypt_loop_frames [OF chunk_loop(5)] evs(1) have fr:
    "length (encoded_frames evs) = length (encrypted_chunks evs)"
    "list_all2 (sealed_by encrypter ?dek) (encoded_frames evs)
       (take (length (encoded_frames evs)) (encrypted_chunks evs))"
    by auto
  from loop_events_no_key_material [OF evs(2)]
  have km: "\<forall>f \<in> set (encoded_frames evs). MetaData f = MetaData ?ci \<and> CipherDEK f = CipherDEK ?ci"
    by blast
  have nc: "encoded_frames (new_calls s0 s1) = encoded_frames evs"
    using evs(1) new_calls_append [of s1 s0 "?pre @ evs"] by simp
  have "list_all2 (sealed_by encrypter ?dek) (encoded_frames evs) (chunks 65536 P)"
    using fr ch by (simp add: chunkSize_def)
  then have "list_all2 (\<lambda>f c. RoundNumber (MetaData f) = R
        \<and> CipherDEK f = \<lparr>KyberPoint = kyberPoint, CipherV = ct_V cipherText, CipherW = ct_W cipherText\<rparr>
        \<and> sealed_by encrypter ?dek f c) (encoded_frames evs) (chunks 65536 P)"
  proof (rule list.rel_mono_strong)
    fix f c
    assume "f \<in> set (encoded_frames evs)" and "sealed_by encrypter ?dek f c"
    with km show "RoundNumber (MetaData f) = R
        \<and> CipherDEK f = \<lparr>KyberPoint = kyberPoint, CipherV = ct_V cipherText, CipherW = ct_W cipherText\<rparr>
        \<and> sealed_by encrypter ?dek f c"
      by simp
  qed
  with nc chunk_loop(2,3,4) show ?thesis
    by (intro that [of w1 publicKey w2 delivered cipherText w3 kyberPoint]) simp_all
qed simp_all

text \<open>
  C1. Take any plaintext \<open>P\<close> (of any length) and round \<open>R\<close>, and a run of
  \<open>EncryptWithRound\<close> on \<open>P\<close> that returned \<open>nil\<close>. Suppose that
  the decoder, on the input of \<open>Decrypt\<close>, returns the frames that run handed to the
  encoder, in order, and then \<open>io.EOF\<close> (the codec's contract);
  the cipher's \<open>Decrypt\<close> undoes its \<open>Encrypt\<close> under the same key;
  a point that was marshalled unmarshals to itself, and \<open>ibe.Decrypt\<close> with the
  signature \<open>sig\<close> undoes \<open>ibe.Encrypt\<close> for the identity of round \<open>R\<close> under
  the chain's public key \<open>pk\<close>;
  and, in every state of the world from the start of decryption on (\<open>I\<close>), the network
  reports \<open>ready\<close> for \<open>R\<close> with the bytes \<open>sg\<close> of \<open>sig\<close>, which the verifier
  accepts for round \<open>R\<close> under \<open>pk\<close>, hands out \<open>pk\<close>, and the sink accepts every
  write. Then \<open>Decrypt\<close>, given at least one round of its loop more than there are
  frames, returns \<open>nil\<close>, and the bytes it wrote, in order, are exactly \<open>P\<close>.
\<close>

theorem decrypt_after_encrypt_is_identity:
  assumes enc: "EncryptWithRound L ctx out (bytes_Reader P) encoder network encrypter R armor s0
                  = (None, rd, s1)"
    and codec: "decodes_to decoder armor inp (encoded_frames (new_calls s0 s1))"
    and aead: "\<forall>key p w c w'. encrypter key p w = (Inr c, w') \<longrightarrow>
                 (\<forall>v. I v \<longrightarrow> (\<exists>v'. decrypter key c v = (Inr p, v') \<and> I v'))"
    and points: "\<forall>u b. G1_MarshalBinary L u = Inr b \<longrightarrow> G1_UnmarshalBinary L b = Inr u"
    and ibe: "\<forall>m w ct w'. ibe_Encrypt L pk (sha256 (RoundToBytes R)) m w = (Inr ct, w') \<longrightarrow>
                 ibe_Decrypt L pk sig ct = Inr m"
    and key: "\<forall>w r w'. PublicKey network ctx w = (Inr r, w') \<longrightarrow> r = pk"
    and start: "I (world s)"
    and ready: "\<forall>w. I w \<longrightarrow> (\<exists>w'. IsReadyToDecrypt network' ctx' R w = ((sg, True), w') \<and> I w')"
    and signature: "G2_UnmarshalBinary L sg = Inr sig"
    and valid: "VerifyBeacon L fixed_scheme \<lparr>PreviousSig = [], Round = R, Signature = sg\<rparr> pk = None"
    and key': "\<forall>w. I w \<longrightarrow> (\<exists>w'. PublicKey network' ctx' w = (Inr pk, w') \<and> I w')"
    and sink: "\<forall>p w. I w \<longrightarrow> (\<exists>k w'. out' p w = ((k, None), w') \<and> I w')"
  shows "\<exists>inp' s'.
           Decrypt (Suc ((length P + 65535) div 65536 + m)) L ctx' out' inp decoder network' decrypter armor s
             = (Returned None, inp', s')
         \<and> written_bytes (new_calls s s') = P"
proof -
  from enc have "encrypt L ctx out (bytes_Reader P) encoder network encrypter R
      (sha256 (RoundToBytes R)) armor s0 = (None, rd, s1)"
    by (simp add: EncryptWithRound_def CalculateEncryptionID_eq)
  then obtain delivered w1 publicKey w2 ct w3 kp where session:
    "PublicKey network ctx w1 = (Inr publicKey, w2)"
    "ibe_Encrypt L publicKey (sha256 (RoundToBytes R)) (go_copy (replicate fileKeySize 0) delivered) w2
       = (Inr ct, w3)"
    "G1_MarshalBinary L (ct_U ct) = Inr kp"
    "list_all2 (\<lambda>f c. RoundNumber (MetaData f) = R
        \<and> CipherDEK f = \<lparr>KyberPoint = kp, CipherV = ct_V ct, CipherW = ct_W ct\<rparr>
        \<and> sealed_by encrypter (go_copy (replicate fileKeySize 0) delivered) f c)
      (encoded_frames (new_calls s0 s1)) (chunks 65536 P)"
    by (rule encrypt_session_frames)
  let ?dek = "go_copy (replicate fileKeySize 0) delivered"
  let ?cd = "\<lparr>KyberPoint = kp, CipherV = ct_V ct, CipherW = ct_W ct\<rparr>"
  let ?fs = "encoded_frames (new_calls s0 s1)"
  from session(1) key have pk: "publicKey = pk" by blast
  have g1: "G1_UnmarshalBinary L (KyberPoint ?cd) = Inr (ct_U ct)"
    using points session(3) by simp
  have "ibe_Decrypt L pk sig ct = Inr ?dek"
    using ibe session(2) pk by blast
  moreover have eta: "\<lparr>ct_U = ct_U ct, ct_V = ct_V ct, ct_W = ct_W ct\<rparr> = ct"
    by (cases ct) simp
  ultimately
  have unwrap: "ibe_Decrypt L pk sig \<lparr>ct_U = ct_U ct, ct_V = CipherV ?cd, ct_W = CipherW ?cd\<rparr> = Inr ?dek"
    by (simp add: eta)
  have frames: "list_all2 (\<lambda>f c. RoundNumber (MetaData f) = R \<and> CipherDEK f = ?cd
            \<and> (\<forall>w. I w \<longrightarrow> (\<exists>w'. decrypter ?dek (CipherData f) w = (Inr c, w') \<and> I w')))
          ?fs (chunks 65536 P)"
    using session(4)
  proof (rule list.rel_mono_strong)
    fix f c
    assume "RoundNumber (MetaData f) = R \<and> CipherDEK f = ?cd \<and> sealed_by encrypter ?dek f c"
    then show "RoundNumber (MetaData f) = R \<and> CipherDEK f = ?cd
            \<and> (\<forall>w. I w \<longrightarrow> (\<exists>w'. decrypter ?dek (CipherData f) w = (Inr c, w') \<and> I w'))"
      using aead unfolding sealed_by_def by blast
  qed
  have len: "length ?fs = (length P + 65535) div 65536"
    using list_all2_lengthD [OF session(4)] length_chunks [of 65536 P] by simp
  from Decrypt_loop_frames [where I = I and network = network' and ctx = ctx' and R = R and sg = sg
      and pk = pk and out = out' and L = L and sig = sig and cd = ?cd and u = "ct_U ct" and dek = ?dek
      and decrypter = decrypter and fs = ?fs and cs = "chunks 65536 P" and decoder = decoder
      and armor = armor and inp = inp and s = s and m = m,
      OF _ _ _ signature g1 valid unwrap frames codec start]
    ready key' sink
  obtain inp' s' evs where
    "Decrypt_loop (Suc (length ?fs + m)) L ctx' out' decoder network' decrypter armor False inp s
       = (Returned None, inp', s')"
    "calls s' = calls s @ evs" "written_bytes evs = concat (chunks 65536 P)"
    by blast
  then show ?thesis
    by (intro exI [of _ inp'] exI [of _ s'])
       (simp add: Decrypt_def len new_calls_append concat_chunks)
qed

lemma test_decoder_decodes: "decodes_to test_decoder armor fs fs"
  by (induction fs) (simp_all add: errors_Is_def)

theorem decrypt_after_encrypt_is_identity_witness:
  "fst (EncryptWithRound test_library background test_writer (bytes_Reader hello) test_encoder
          test_network test_encrypter 5 False test_state) = None
   \<and> (\<exists>inp' s'.
         Decrypt (Suc ((length hello + 65535) div 65536 + 0)) test_library background test_writer
           (stream (world (snd (snd (EncryptWithRound test_library background test_writer
              (bytes_Reader hello) test_encoder test_network test_encrypter 5 False test_state)))))
           test_decoder test_network test_decrypter False test_state
         = (Returned None, inp', s')
       \<and> written_bytes (new_calls test_state s') = hello)"
proof -
  let ?E = "EncryptWithRound test_library background test_writer (bytes_Reader hello) test_encoder
          test_network test_encrypter 5 False test_state"
  let ?I = "\<lambda>w. 5 \<le> latest_round w"
  have ok: "fst ?E = None"
    by (simp add: EncryptWithRound_def CalculateEncryptionID_eq run_encrypt test_doubles hello_def)
  then have enc: "?E = (None, fst (snd ?E), snd (snd ?E))"
    by (metis prod.collapse)
  have same: "stream (world (snd (snd ?E))) = encoded_frames (new_calls test_state (snd (snd ?E)))"
    by (simp add: EncryptWithRound_def CalculateEncryptionID_eq run_encrypt test_doubles hello_def
          new_calls_def)
  have codec: "decodes_to test_decoder False (stream (world (snd (snd ?E))))
      (encoded_frames (new_calls test_state (snd (snd ?E))))"
    unfolding same by (rule test_decoder_decodes)
  have aead: "\<forall>key p w c w'. test_encrypter key p w = (Inr c, w') \<longrightarrow>
                 (\<forall>v. ?I v \<longrightarrow> (\<exists>v'. test_decrypter key c v = (Inr p, v') \<and> ?I v'))"
    by (auto simp: test_encrypter_def test_decrypter_def)
  have points: "\<forall>u b. G1_MarshalBinary test_library u = Inr b \<longrightarrow> G1_UnmarshalBinary test_library b = Inr u"
    by (simp add: test_library_def)
  have ibe: "\<forall>m w ct w'. ibe_Encrypt test_library [1, 2, 3] (sha256 (RoundToBytes 5)) m w = (Inr ct, w') \<longrightarrow>
                 ibe_Decrypt test_library [1, 2, 3] (RoundToBytes 5) ct = Inr m"
    by (auto simp: test_library_def)
  have key: "\<forall>w r w'. PublicKey test_network background w = (Inr r, w') \<longrightarrow> r = [1, 2, 3]"
    by (auto simp: test_network_def background_def)
  have start: "?I (world test_state)"
    by (simp add: test_state_def)
  have ready: "\<forall>w. ?I w \<longrightarrow> (\<exists>w'. IsReadyToDecrypt test_network background 5 w = ((RoundToBytes 5, True), w') \<and> ?I w')"
    by (simp add: test_network_def background_def)
  have signature: "G2_UnmarshalBinary test_library (RoundToBytes 5) = Inr (RoundToBytes 5)"
    by (simp add: test_library_def)
  have valid: "VerifyBeacon test_library fixed_scheme
      \<lparr>PreviousSig = [], Round = 5, Signature = RoundToBytes 5\<rparr> [1, 2, 3] = None"
    by (simp add: test_library_def)
  have key': "\<forall>w. ?I w \<longrightarrow> (\<exists>w'. PublicKey test_network background w = (Inr [1, 2, 3], w') \<and> ?I w')"
    by (simp add: test_network_def background_def)
  have sink: "\<forall>p w. ?I w \<longrightarrow> (\<exists>k w'. test_writer p w = ((k, None), w') \<and> ?I w')"
    by (simp add: test_writer_def)
  from decrypt_after_encrypt_is_identity
    [OF enc codec aead points ibe key start ready signature valid key' sink, of 0] ok
  show ?thesis
    by simp
qed

end
